theory Spec2Isabelle
  imports Complex_Main "HOL-Library.AList" "HOL-Library.Multiset"
begin

section \<open>Python values\<close>

text \<open>
  A Python \<open>str\<close> is a sequence of Unicode code points; \<open>ustr\<close> lists them as
  natural numbers. ASCII literals are written \<open>u ''...''\<close>; the Chinese literals of the
  source are spelled out by code point.
\<close>

type_synonym ustr = "nat list"

definition u :: "string \<Rightarrow> ustr" where
  "u s = map of_char s"

text \<open>The sentinel of the source that stands for "not provided": U+672A U+63D0 U+53CA.\<close>

definition not_provided :: ustr where
  "not_provided = [0x672A, 0x63D0, 0x53CA]"

text \<open>
  The values a parsed JSON document holds. A dict is an association list in insertion
  order; \<open>map_of\<close> reads a key and \<open>AList.update\<close> writes one (in place when the key
  exists, at the end otherwise), as Python's dict does.
\<close>

datatype json =
    JNull
  | JBool bool
  | JInt int
  | JFloat rat
  | JStr ustr
  | JList "json list"
  | JDict "(ustr \<times> json) list"

type_synonym pydict = "(ustr \<times> json) list"

text \<open>Python truthiness: what \<open>if v:\<close> and \<open>not v\<close> test.\<close>

fun truthy :: "json \<Rightarrow> bool" where
  "truthy JNull = False"
| "truthy (JBool b) = b"
| "truthy (JInt n) = (n \<noteq> 0)"
| "truthy (JFloat q) = (q \<noteq> 0)"
| "truthy (JStr s) = (s \<noteq> [])"
| "truthy (JList xs) = (xs \<noteq> [])"
| "truthy (JDict d) = (d \<noteq> [])"

text \<open>\<open>d.get(k, default)\<close>\<close>

definition dict_get :: "pydict \<Rightarrow> ustr \<Rightarrow> json \<Rightarrow> json" where
  "dict_get d k dflt = (case map_of d k of Some v \<Rightarrow> v | None \<Rightarrow> dflt)"

text \<open>\<open>d.update(e)\<close>: the items of \<open>e\<close> are written into \<open>d\<close> one after the other.\<close>

definition dict_update :: "pydict \<Rightarrow> pydict \<Rightarrow> pydict" where
  "dict_update d e = fold (\<lambda>(k, v) acc. AList.update k v acc) e d"

text \<open>
  Two built-ins of the interpreter are not part of the repository and are taken as
  parameters: \<open>str.lower\<close> (the Unicode case tables) and the rendering \<open>str(v)\<close> of a
  value that is not already a \<open>str\<close>. Every theorem below holds for all of their values.
\<close>

record builtins =
  str_lower :: "ustr \<Rightarrow> ustr"
  str_repr :: "json \<Rightarrow> ustr"

definition py_str :: "builtins \<Rightarrow> json \<Rightarrow> ustr" where
  "py_str B v = (case v of JStr s \<Rightarrow> s | _ \<Rightarrow> str_repr B v)"

text \<open>
  The code points for which \<open>str.isspace\<close> holds; \<open>str.strip()\<close> and the regular
  expression class \<open>\s\<close> both use this set.
\<close>

definition is_space :: "nat \<Rightarrow> bool" where
  "is_space c \<longleftrightarrow>
     (0x09 \<le> c \<and> c \<le> 0x0D) \<or> (0x1C \<le> c \<and> c \<le> 0x20) \<or> c = 0x85 \<or> c = 0xA0 \<or>
     c = 0x1680 \<or> (0x2000 \<le> c \<and> c \<le> 0x200A) \<or> c = 0x2028 \<or> c = 0x2029 \<or>
     c = 0x202F \<or> c = 0x205F \<or> c = 0x3000"

definition strip :: "ustr \<Rightarrow> ustr" where
  "strip s = dropWhile is_space (rev (dropWhile is_space (rev s)))"

section \<open>Identity normalizer (store\_org.py)\<close>

text \<open>
  \<open>_normalize_phone\<close>: empty for a falsy value or the sentinel; otherwise
  \<open>re.sub(r"[\s\-\(\)]+", "", str(phone).strip())\<close>, which deletes every white-space
  character, hyphen and parenthesis.
\<close>

definition phone_junk :: "nat \<Rightarrow> bool" where
  "phone_junk c \<longleftrightarrow> is_space c \<or> c = 0x2D \<or> c = 0x28 \<or> c = 0x29"

definition normalize_phone :: "builtins \<Rightarrow> json \<Rightarrow> ustr" where
  "normalize_phone B phone =
     (if \<not> truthy phone \<or> phone = JStr not_provided then []
      else filter (\<lambda>c. \<not> phone_junk c) (strip (py_str B phone)))"

definition normalize_email :: "builtins \<Rightarrow> json \<Rightarrow> ustr" where
  "normalize_email B email =
     (if \<not> truthy email \<or> email = JStr not_provided then []
      else str_lower B (strip (py_str B email)))"

record dedup =
  strategy :: ustr
  key :: ustr

definition compute_dedup_key :: "builtins \<Rightarrow> json \<Rightarrow> json \<Rightarrow> dedup" where
  "compute_dedup_key B phone email =
     (let norm_phone = normalize_phone B phone;
          norm_email = normalize_email B email
      in if norm_phone \<noteq> [] then
           \<lparr>strategy = u ''phone_then_email'', key = u ''phone:'' @ norm_phone\<rparr>
         else if norm_email \<noteq> [] then
           \<lparr>strategy = u ''phone_then_email'', key = u ''email:'' @ norm_email\<rparr>
         else \<lparr>strategy = u ''phone_then_email'', key = []\<rparr>)"

text \<open>The alias keys of \<open>_extract_contact_from_profile\<close>, in the source's order.\<close>

definition k_dianhua :: ustr where "k_dianhua = [0x7535, 0x8BDD]"
definition k_lianxi_dianhua :: ustr where "k_lianxi_dianhua = [0x8054, 0x7CFB, 0x7535, 0x8BDD]"
definition k_shouji :: ustr where "k_shouji = [0x624B, 0x673A]"
definition k_lianxi_fangshi :: ustr where "k_lianxi_fangshi = [0x8054, 0x7CFB, 0x65B9, 0x5F0F]"
definition k_youxiang :: ustr where "k_youxiang = [0x90AE, 0x7BB1]"
definition k_lianxi_youxiang :: ustr where "k_lianxi_youxiang = [0x8054, 0x7CFB, 0x90AE, 0x7BB1]"
definition k_xingming :: ustr where "k_xingming = [0x59D3, 0x540D]"

definition phone_keys :: "ustr list" where
  "phone_keys = [k_dianhua, k_lianxi_dianhua, k_shouji, u ''phone'', u ''tel'', u ''mobile'']"

definition email_keys :: "ustr list" where
  "email_keys = [k_youxiang, k_lianxi_youxiang, u ''email'', u ''e-mail'']"

text \<open>
  The loop \<open>for key in keys: if key in d and d[key]: ... break\<close>: the first key of the
  list that is present with a truthy value.
\<close>

fun first_truthy :: "pydict \<Rightarrow> ustr list \<Rightarrow> json option" where
  "first_truthy d [] = None"
| "first_truthy d (k # ks) =
     (case map_of d k of
        Some v \<Rightarrow> if truthy v then Some v else first_truthy d ks
      | None \<Rightarrow> first_truthy d ks)"

text \<open>
  \<open>_extract_contact_from_profile\<close>. A value found under an alias key goes through
  \<open>str\<close>; a value read from the nested contact object is returned as it is.
\<close>

definition extract_contact_from_profile :: "builtins \<Rightarrow> json \<Rightarrow> json \<times> json" where
  "extract_contact_from_profile B profile_data =
     (case profile_data of
        JDict d \<Rightarrow>
          (let phone = (case first_truthy d phone_keys of
                          Some v \<Rightarrow> JStr (py_str B v) | None \<Rightarrow> JStr []);
               contact = dict_get d k_lianxi_fangshi (JDict []);
               phone2 = (case contact of
                           JDict c \<Rightarrow> if \<not> truthy phone then dict_get c k_dianhua (JStr []) else phone
                         | _ \<Rightarrow> phone);
               email = (case contact of
                          JDict c \<Rightarrow> dict_get c k_youxiang (JStr [])
                        | _ \<Rightarrow> JStr []);
               email2 = (case first_truthy d email_keys of
                           Some v \<Rightarrow> JStr (py_str B v) | None \<Rightarrow> email)
           in (phone2, email2))
      | _ \<Rightarrow> (JStr [], JStr []))"

section \<open>Profile validation (profile\_validation.py)\<close>

text \<open>
  The second contact extractor of the repository, \<open>extract_contact\<close>, with its test
  for missing values: null, a string that is blank or (stripped and lower-cased) one of
  \<open>MISSING_STRINGS\<close>, a list of missing items, an empty dict. A bool is an \<open>int\<close> for
  \<open>isinstance\<close>, so it is never missing.
\<close>

definition MISSING_STRINGS :: "ustr list" where
  "MISSING_STRINGS =
     [[], not_provided, [0x672A, 0x77E5], [0x65E0], u ''none'', u ''null'', u ''n/a'', u ''na'']"

definition is_missing_str :: "builtins \<Rightarrow> ustr \<Rightarrow> bool" where
  "is_missing_str B v = (let s = strip v in s = [] \<or> str_lower B s \<in> set MISSING_STRINGS)"

fun is_missing :: "builtins \<Rightarrow> json \<Rightarrow> bool" where
  "is_missing B JNull = True"
| "is_missing B (JStr s) = is_missing_str B s"
| "is_missing B (JBool b) = False"
| "is_missing B (JInt n) = False"
| "is_missing B (JFloat q) = False"
| "is_missing B (JList xs) = list_all (is_missing B) xs"
| "is_missing B (JDict d) = (d = [])"

fun get_first_non_missing :: "builtins \<Rightarrow> pydict \<Rightarrow> ustr list \<Rightarrow> ustr" where
  "get_first_non_missing B mapping [] = []"
| "get_first_non_missing B mapping (k # ks) =
     (case map_of mapping k of
        Some v \<Rightarrow> if \<not> is_missing B v then strip (py_str B v)
                  else get_first_non_missing B mapping ks
      | None \<Rightarrow> get_first_non_missing B mapping ks)"

definition extract_contact :: "builtins \<Rightarrow> json \<Rightarrow> ustr \<times> ustr" where
  "extract_contact B profile =
     (case profile of
        JDict d \<Rightarrow>
          (let phone = get_first_non_missing B d phone_keys;
               email = get_first_non_missing B d email_keys;
               contact = dict_get d k_lianxi_fangshi (JDict [])
           in case contact of
                JDict c \<Rightarrow>
                  (if phone = []
                   then get_first_non_missing B c [k_dianhua, u ''phone'', u ''tel'', u ''mobile'']
                   else phone,
                   if email = []
                   then get_first_non_missing B c [k_youxiang, u ''email'', u ''e-mail'']
                   else email)
              | _ \<Rightarrow> (phone, email))
      | _ \<Rightarrow> ([], []))"

section \<open>Binary64 floats\<close>

text \<open>
  A Python float is an IEEE 754 binary64 number. \<open>Fin m e\<close> is the finite value
  \<open>m * 2 ^ e\<close>, kept normalized (\<open>m\<close> odd, or \<open>Fin 0 0\<close> for zero; the sign of zero is
  not kept, \<open>-0.0 == 0.0\<close>). \<open>round64 m e\<close> rounds the exact value \<open>m * 2 ^ e\<close> to the
  nearest double, ties to even: 53 bits of precision, the smallest unit \<open>2 ^ -1074\<close>,
  infinity from \<open>2 ^ 1024\<close> on. \<open>add64\<close> is the float addition: the exact sum, rounded
  (a zero operand returns the other operand, which is that sum).
\<close>

datatype f64 = Fin int int | PInf | NInf | NaN

function normalize64 :: "int \<Rightarrow> int \<Rightarrow> int \<times> int" where
  "normalize64 m e =
     (if m = 0 then (0, 0) else if even m then normalize64 (m div 2) (e + 1) else (m, e))"
  by pat_completeness auto
termination
  by (relation "measure (\<lambda>(m, e). nat \<bar>m\<bar>)") (auto elim!: evenE)

declare normalize64.simps [simp del]

function bit_length :: "nat \<Rightarrow> nat" where
  "bit_length n = (if n = 0 then 0 else Suc (bit_length (n div 2)))"
  by pat_completeness auto
termination
  by (relation "measure id") auto

declare bit_length.simps [simp del]

definition round64 :: "int \<Rightarrow> int \<Rightarrow> f64" where
  "round64 m e =
     (if m = 0 then Fin 0 0
      else
        let a = nat \<bar>m\<bar>;
            e' = max (e + int (bit_length a) - 53) (- 1074);
            sh = nat (e' - e);
            q0 = a div 2 ^ sh;
            r = a mod 2 ^ sh;
            q = (if e' \<le> e then a
                 else if 2 * r > 2 ^ sh \<or> (2 * r = 2 ^ sh \<and> odd q0) then q0 + 1 else q0);
            e2 = (if e' \<le> e then e else e')
        in if q = 0 then Fin 0 0
           else if int (bit_length q) + e2 > 1024 then (if 0 < m then PInf else NInf)
           else (case normalize64 (sgn m * int q) e2 of (m', e'') \<Rightarrow> Fin m' e''))"

fun add64 :: "f64 \<Rightarrow> f64 \<Rightarrow> f64" where
  "add64 NaN y = NaN"
| "add64 x NaN = NaN"
| "add64 PInf NInf = NaN"
| "add64 NInf PInf = NaN"
| "add64 PInf y = PInf"
| "add64 x PInf = PInf"
| "add64 NInf y = NInf"
| "add64 x NInf = NInf"
| "add64 (Fin a ea) (Fin b eb) =
     (if a = 0 then Fin b eb
      else if b = 0 then Fin a ea
      else let e = min ea eb
           in round64 (a * 2 ^ nat (ea - e) + b * 2 ^ nat (eb - e)) e)"

instantiation f64 :: "{zero, plus}"
begin

definition zero_f64 :: f64 where
  "zero_f64 = Fin 0 0"

definition plus_f64 :: "f64 \<Rightarrow> f64 \<Rightarrow> f64" where
  "plus_f64 = add64"

instance ..

end

text \<open>
  Negation, subtraction (the addition of the negated operand), the test
  \<open>fabs(x) >= fabs(y)\<close> (false when an operand is not a number) and \<open>isfinite\<close>.
\<close>

fun neg64 :: "f64 \<Rightarrow> f64" where
  "neg64 (Fin m e) = Fin (- m) e"
| "neg64 PInf = NInf"
| "neg64 NInf = PInf"
| "neg64 NaN = NaN"

definition sub64 :: "f64 \<Rightarrow> f64 \<Rightarrow> f64" where
  "sub64 x y = add64 x (neg64 y)"

fun is_finite64 :: "f64 \<Rightarrow> bool" where
  "is_finite64 (Fin m e) = True"
| "is_finite64 x = False"

fun abs_ge64 :: "f64 \<Rightarrow> f64 \<Rightarrow> bool" where
  "abs_ge64 NaN y = False"
| "abs_ge64 x NaN = False"
| "abs_ge64 (Fin a ea) (Fin b eb) =
     (let e = min ea eb in \<bar>a\<bar> * 2 ^ nat (ea - e) \<ge> \<bar>b\<bar> * 2 ^ nat (eb - e))"
| "abs_ge64 (Fin a ea) y = False"
| "abs_ge64 x y = True"

text \<open>
  The floats that are integer multiples of \<open>2 ^ -k\<close> (for \<open>k = 0\<close> the integer-valued
  ones, for \<open>k = 1\<close> also the halves such as 72.5): \<open>of_units k i\<close> is the float of
  value \<open>i * 2 ^ -k\<close> for \<open>i\<close> below \<open>2 ^ 53\<close> in magnitude and \<open>k\<close> at most 1074;
  \<open>in_units k\<close> holds for the finite floats that are such multiples, and \<open>units k\<close> is
  their number of units \<open>i\<close>.
\<close>

definition of_units :: "nat \<Rightarrow> int \<Rightarrow> f64" where
  "of_units k i = (case normalize64 i (- int k) of (m, e) \<Rightarrow> Fin m e)"

fun units :: "nat \<Rightarrow> f64 \<Rightarrow> int" where
  "units k (Fin m e) = m * 2 ^ nat (e + int k)"
| "units k x = 0"

fun in_units :: "nat \<Rightarrow> f64 \<Rightarrow> bool" where
  "in_units k (Fin m e) = (- int k \<le> e \<and> (odd m \<or> (m = 0 \<and> e = 0)))"
| "in_units k x = False"

section \<open>Event ledger (performance\_models.py)\<close>

text \<open>
  Scores are Python floats. In the ledger functions their type is left abstract: \<open>'f\<close>
  with an addition of which no law is assumed. The built-in \<open>sum\<close> is the parameter
  \<open>py_sum\<close> of the two functions that call it, since its algorithm depends on the
  interpreter: up to CPython 3.11 it adds from the left, starting from \<open>0\<close>
  (\<open>plain_sum\<close>); from CPython 3.12 on it adds floats with Neumaier's compensation
  (\<open>compensated_sum\<close>, on binary64 floats).
\<close>

record 'f event =
  ev_id :: ustr
  ev_type :: ustr
  ev_delta :: 'f
  ev_title :: ustr
  ev_note :: ustr
  ev_group_id :: "ustr option"
  ev_at :: ustr

record 'f performance =
  base_score :: 'f
  events :: "'f event list"
  perf_updated_at :: ustr

record 'f summary =
  s_base_score :: 'f
  s_current_score :: 'f
  s_contribution_total :: 'f
  s_contribution_count :: nat
  s_event_count :: nat
  s_last_updated :: ustr

definition EVENT_TYPE_CONTRIBUTION :: ustr where
  "EVENT_TYPE_CONTRIBUTION = u ''contribution''"

definition plain_sum :: "('f::{zero,plus}) list \<Rightarrow> 'f" where
  "plain_sum xs = foldl (+) 0 xs"

text \<open>
  The float loop of \<open>sum\<close> from CPython 3.12 on (\<open>builtin_sum_impl\<close>): the first float
  is added to the integer start value \<open>0\<close>; every further float \<open>x\<close> goes through
  \<open>t = f + x\<close>, \<open>c += (f - t) + x\<close> when \<open>fabs(f) >= fabs(x)\<close> and
  \<open>c += (x - t) + f\<close> otherwise, \<open>f = t\<close>; at the end \<open>c\<close> is added when it is
  non-zero and finite.
\<close>

fun neumaier_step :: "f64 \<times> f64 \<Rightarrow> f64 \<Rightarrow> f64 \<times> f64" where
  "neumaier_step (f, c) x =
     (let t = add64 f x
      in (t, if abs_ge64 f x then add64 c (add64 (sub64 f t) x)
             else add64 c (add64 (sub64 x t) f)))"

definition compensated_sum :: "f64 list \<Rightarrow> f64" where
  "compensated_sum xs =
     (case xs of
        [] \<Rightarrow> Fin 0 0
      | x # rest \<Rightarrow>
          (case foldl neumaier_step (add64 (Fin 0 0) x, Fin 0 0) rest of
             (f, c) \<Rightarrow> if c \<noteq> Fin 0 0 \<and> is_finite64 c then add64 f c else f))"

datatype cpython = Before_3_12 | From_3_12

fun builtin_sum :: "cpython \<Rightarrow> f64 list \<Rightarrow> f64" where
  "builtin_sum Before_3_12 xs = plain_sum xs"
| "builtin_sum From_3_12 xs = compensated_sum xs"

definition empty_performance :: "ustr \<Rightarrow> ('f::zero) performance" where
  "empty_performance now = \<lparr>base_score = 0, events = [], perf_updated_at = now\<rparr>"

definition compute_current_score :: "('f list \<Rightarrow> 'f) \<Rightarrow> ('f::plus) performance \<Rightarrow> 'f" where
  "compute_current_score py_sum perf =
     (let base = base_score perf;
          total_delta = py_sum (map ev_delta (events perf))
      in base + total_delta)"

text \<open>The scope test of \<open>get_summary\<close>: the event's group is the given one, or null.\<close>

definition in_scope :: "ustr \<Rightarrow> 'f event \<Rightarrow> bool" where
  "in_scope g e \<longleftrightarrow> ev_group_id e = Some g \<or> ev_group_id e = None"

text \<open>
  \<open>get_summary\<close>. The guard \<open>if group_id:\<close> is Python truthiness: it fails for
  \<open>None\<close> and for the empty string.
\<close>

definition get_summary ::
  "('f list \<Rightarrow> 'f) \<Rightarrow> ('f::plus) performance \<Rightarrow> ustr option \<Rightarrow> 'f summary" where
  "get_summary py_sum perf group_id =
     (let evs = (case group_id of
                   Some g \<Rightarrow> if g \<noteq> [] then filter (in_scope g) (events perf) else events perf
                 | None \<Rightarrow> events perf);
          base = base_score perf;
          total_delta = py_sum (map ev_delta evs);
          contrib_delta = py_sum (map ev_delta (filter (\<lambda>e. ev_type e = EVENT_TYPE_CONTRIBUTION) evs));
          contrib_count = length (filter (\<lambda>e. ev_type e = EVENT_TYPE_CONTRIBUTION) evs)
      in \<lparr>s_base_score = base,
          s_current_score = base + total_delta,
          s_contribution_total = contrib_delta,
          s_contribution_count = contrib_count,
          s_event_count = length evs,
          s_last_updated = perf_updated_at perf\<rparr>)"


section \<open>Entity store (store\_org.py)\<close>

text \<open>
  The persisted document. The dicts with a fixed set of keys (person, membership, group,
  source entry) are records; the open-ended ones (\<open>profile\<close>, membership \<open>fields\<close>)
  stay JSON values. A person of a version 2 document has no \<open>performance\<close> yet.
\<close>

record source_entry =
  src_type :: ustr
  src_imported_at :: ustr

record membership =
  ms_group_id :: ustr
  ms_joined_at :: ustr
  ms_updated_at :: ustr
  ms_fields :: pydict

record 'f person =
  p_id :: ustr
  p_name :: json
  p_phone :: ustr
  p_email :: ustr
  p_dedup :: dedup
  p_created_at :: ustr
  p_updated_at :: ustr
  p_profile :: json
  p_sources :: "source_entry list"
  p_memberships :: "membership list"
  p_performance :: "'f performance option"

record group =
  g_id :: ustr
  g_name :: ustr
  g_description :: ustr
  g_tags :: "json list"
  g_created_at :: ustr
  g_updated_at :: ustr

record org =
  org_id :: ustr
  org_name :: ustr
  org_created_at :: ustr
  org_updated_at :: ustr

record 'f store =
  schema_version :: "nat option"
  org :: org
  groups :: "group list"
  people :: "'f person list"

definition SCHEMA_VERSION :: nat where
  "SCHEMA_VERSION = 3"

text \<open>
  Every operation is a function from the loaded document to the document it hands to
  \<open>save_org_store\<close> and the value it returns. The clock reading \<open>now\<close>, the random
  strings \<open>str(uuid.uuid4())\<close> and \<open>saved\<close>, the boolean \<open>save_org_store\<close> returns
  (true unless the write raises), are parameters.
\<close>

definition save_org_store :: "'f store \<Rightarrow> 'f store" where
  "save_org_store store = store\<lparr>schema_version := Some SCHEMA_VERSION\<rparr>"

definition create_empty_org_store :: "ustr \<Rightarrow> 'f store" where
  "create_empty_org_store now =
     \<lparr>schema_version = Some SCHEMA_VERSION,
      org = \<lparr>org_id = u ''org_default'', org_name = [0x5927, 0x56E2, 0x961F],
             org_created_at = now, org_updated_at = now\<rparr>,
      groups = [],
      people = []\<rparr>"

text \<open>
  \<open>for x in xs: if P(x): <mutate x>; return\<close>: the first element that satisfies
  \<open>P\<close> is changed in place.
\<close>

fun update_first :: "('a \<Rightarrow> bool) \<Rightarrow> ('a \<Rightarrow> 'a) \<Rightarrow> 'a list \<Rightarrow> 'a list" where
  "update_first P f [] = []"
| "update_first P f (x # xs) = (if P x then f x # xs else x # update_first P f xs)"

definition ensure_performance :: "ustr \<Rightarrow> ('f::zero) person \<Rightarrow> 'f person" where
  "ensure_performance now person =
     (case p_performance person of
        None \<Rightarrow> person\<lparr>p_performance := Some (empty_performance now)\<rparr>
      | Some perf \<Rightarrow> person)"

subsection \<open>Groups\<close>

definition rename_group :: "bool \<Rightarrow> ustr \<Rightarrow> 'f store \<Rightarrow> ustr \<Rightarrow> ustr \<Rightarrow> 'f store \<times> bool" where
  "rename_group saved now store group_id new_name =
     (if \<exists>g \<in> set (groups store). g_id g = group_id then
        (save_org_store (store\<lparr>groups :=
           update_first (\<lambda>g. g_id g = group_id)
             (\<lambda>g. g\<lparr>g_name := new_name, g_updated_at := now\<rparr>) (groups store)\<rparr>), saved)
      else (store, False))"

definition delete_group :: "bool \<Rightarrow> 'f store \<Rightarrow> ustr \<Rightarrow> 'f store \<times> bool" where
  "delete_group saved store group_id =
     (save_org_store (store\<lparr>
        groups := filter (\<lambda>g. g_id g \<noteq> group_id) (groups store),
        people := map (\<lambda>person. person\<lparr>p_memberships :=
                         filter (\<lambda>m. ms_group_id m \<noteq> group_id) (p_memberships person)\<rparr>)
                      (people store)\<rparr>), saved)"

subsection \<open>People\<close>

definition unknown_name :: ustr where
  "unknown_name = [0x672A, 0x77E5]"

definition member_prefix :: ustr where
  "member_prefix = [0x6210, 0x5458, 0x5F]"

text \<open>The loop over \<open>profile_data.items()\<close> in the merge branch of \<open>upsert_person\<close>.\<close>

definition merge_profile :: "pydict \<Rightarrow> pydict \<Rightarrow> pydict" where
  "merge_profile existing incoming =
     fold (\<lambda>(k, v) acc. if truthy v \<and> v \<noteq> JStr not_provided then AList.update k v acc else acc)
          incoming existing"

text \<open>\<open>membership_fields or d\<close>\<close>

definition fields_or :: "pydict option \<Rightarrow> pydict \<Rightarrow> pydict" where
  "fields_or membership_fields d =
     (case membership_fields of Some f \<Rightarrow> if f \<noteq> [] then f else d | None \<Rightarrow> d)"

text \<open>The branch \<open>if existing_person:\<close> of \<open>upsert_person\<close>, as a change of that person.\<close>

definition merge_person ::
  "ustr \<Rightarrow> json \<Rightarrow> ustr \<Rightarrow> ustr option \<Rightarrow> pydict option \<Rightarrow> 'f person \<Rightarrow> 'f person" where
  "merge_person now profile_data source group_id membership_fields existing_person =
     (let profile' = (case (profile_data, p_profile existing_person) of
                        (JDict incoming, JDict old) \<Rightarrow> JDict (merge_profile old incoming)
                      | _ \<Rightarrow> p_profile existing_person);
          sources' = p_sources existing_person @ [\<lparr>src_type = source, src_imported_at = now\<rparr>];
          memberships' =
            (case group_id of
               None \<Rightarrow> p_memberships existing_person
             | Some g \<Rightarrow>
                 if g = [] then p_memberships existing_person
                 else if \<exists>ms \<in> set (p_memberships existing_person). ms_group_id ms = g then
                   update_first (\<lambda>ms. ms_group_id ms = g)
                     (\<lambda>ms. ms\<lparr>ms_updated_at := now,
                              ms_fields := dict_update (ms_fields ms) (fields_or membership_fields [])\<rparr>)
                     (p_memberships existing_person)
                 else p_memberships existing_person @
                   [\<lparr>ms_group_id = g, ms_joined_at = now, ms_updated_at = now,
                     ms_fields = fields_or membership_fields [(u ''source'', JStr source)]\<rparr>])
      in existing_person\<lparr>p_updated_at := now, p_profile := profile',
                          p_sources := sources', p_memberships := memberships'\<rparr>)"

text \<open>The membership \<open>upsert_person\<close> builds when a group id is given (\<open>if group_id:\<close>).\<close>

definition new_memberships :: "ustr \<Rightarrow> ustr \<Rightarrow> ustr option \<Rightarrow> pydict option \<Rightarrow> membership list" where
  "new_memberships now source group_id membership_fields =
     (case group_id of
        None \<Rightarrow> []
      | Some g \<Rightarrow>
          if g = [] then []
          else [\<lparr>ms_group_id = g, ms_joined_at = now, ms_updated_at = now,
                 ms_fields = fields_or membership_fields [(u ''source'', JStr source)]\<rparr>])"

text \<open>
  \<open>upsert_person\<close>. \<open>name_uuid\<close> and \<open>id_uuid\<close> are the random strings drawn for the
  placeholder name and for the new id. A person dict is never empty, so
  \<open>if existing_person:\<close> asks whether the search found one.
\<close>

definition upsert_person ::
  "builtins \<Rightarrow> ustr \<Rightarrow> ustr \<Rightarrow> ustr \<Rightarrow> ('f::zero) store \<Rightarrow> json \<Rightarrow> ustr \<Rightarrow> ustr option \<Rightarrow>
   pydict option \<Rightarrow> 'f store \<times> (ustr \<times> bool)" where
  "upsert_person B now name_uuid id_uuid store profile_data source group_id membership_fields =
     (let (phone, email) = extract_contact_from_profile B profile_data;
          dedup = compute_dedup_key B phone email;
          name = (case profile_data of
                    JDict d \<Rightarrow>
                      (let n = dict_get d k_xingming (JStr unknown_name)
                       in if n = JStr not_provided then JStr (member_prefix @ take 4 name_uuid) else n)
                  | _ \<Rightarrow> JStr unknown_name);
          existing_person =
            (if key dedup \<noteq> []
             then List.find (\<lambda>p. key (p_dedup p) = key dedup) (people store) else None)
      in case existing_person of
           Some ep \<Rightarrow>
             (save_org_store (store\<lparr>people :=
                update_first (\<lambda>p. key (p_dedup p) = key dedup)
                  (merge_person now profile_data source group_id membership_fields)
                  (people store)\<rparr>),
              (p_id ep, False))
         | None \<Rightarrow>
             (let person_id = take 8 id_uuid;
                  new_person =
                    \<lparr>p_id = person_id, p_name = name,
                     p_phone = normalize_phone B phone, p_email = normalize_email B email,
                     p_dedup = dedup, p_created_at = now, p_updated_at = now,
                     p_profile = profile_data,
                     p_sources = [\<lparr>src_type = source, src_imported_at = now\<rparr>],
                     p_memberships = new_memberships now source group_id membership_fields,
                     p_performance = Some (empty_performance now)\<rparr>
              in (save_org_store (store\<lparr>people := people store @ [new_person]\<rparr>),
                  (person_id, True))))"

text \<open>The dedup key \<open>upsert_person\<close> and the migration compute for a profile.\<close>

definition profile_dedup_key :: "builtins \<Rightarrow> json \<Rightarrow> ustr" where
  "profile_dedup_key B profile_data =
     key (compute_dedup_key B (fst (extract_contact_from_profile B profile_data))
                              (snd (extract_contact_from_profile B profile_data)))"

definition delete_person :: "bool \<Rightarrow> 'f store \<Rightarrow> ustr \<Rightarrow> 'f store \<times> bool" where
  "delete_person saved store person_id =
     (save_org_store (store\<lparr>people := filter (\<lambda>p. p_id p \<noteq> person_id) (people store)\<rparr>), saved)"

subsection \<open>Memberships\<close>

text \<open>
  The body of \<open>add_person_to_group\<close> for the person found: the first membership of the
  group is touched, or a new one is appended.
\<close>

definition add_membership :: "ustr \<Rightarrow> ustr \<Rightarrow> pydict option \<Rightarrow> 'f person \<Rightarrow> 'f person" where
  "add_membership now group_id flds person =
     (if \<exists>ms \<in> set (p_memberships person). ms_group_id ms = group_id then
        person\<lparr>p_memberships :=
          update_first (\<lambda>ms. ms_group_id ms = group_id)
            (\<lambda>ms. ms\<lparr>ms_updated_at := now,
                     ms_fields := dict_update (ms_fields ms) (fields_or flds [])\<rparr>)
            (p_memberships person)\<rparr>
      else
        person\<lparr>p_memberships := p_memberships person @
          [\<lparr>ms_group_id = group_id, ms_joined_at = now, ms_updated_at = now,
            ms_fields = fields_or flds []\<rparr>]\<rparr>)"

definition add_person_to_group ::
  "bool \<Rightarrow> ustr \<Rightarrow> 'f store \<Rightarrow> ustr \<Rightarrow> ustr \<Rightarrow> pydict option \<Rightarrow> 'f store \<times> bool" where
  "add_person_to_group saved now store person_id group_id flds =
     (if \<exists>p \<in> set (people store). p_id p = person_id then
        (save_org_store (store\<lparr>people :=
           update_first (\<lambda>p. p_id p = person_id) (add_membership now group_id flds)
             (people store)\<rparr>), saved)
      else (store, False))"

definition remove_person_from_group ::
  "bool \<Rightarrow> 'f store \<Rightarrow> ustr \<Rightarrow> ustr \<Rightarrow> 'f store \<times> bool" where
  "remove_person_from_group saved store person_id group_id =
     (if \<exists>p \<in> set (people store). p_id p = person_id then
        (save_org_store (store\<lparr>people :=
           update_first (\<lambda>p. p_id p = person_id)
             (\<lambda>person. person\<lparr>p_memberships :=
                filter (\<lambda>m. ms_group_id m \<noteq> group_id) (p_memberships person)\<rparr>)
             (people store)\<rparr>), saved)
      else (store, False))"

text \<open>
  \<open>update_membership_fields\<close>: the loops return at the first person with the id that
  has a membership of the group; a person with the id and without such a membership is
  passed over.
\<close>

definition update_membership_fields ::
  "bool \<Rightarrow> ustr \<Rightarrow> 'f store \<Rightarrow> ustr \<Rightarrow> ustr \<Rightarrow> pydict \<Rightarrow> 'f store \<times> bool" where
  "update_membership_fields saved now store person_id group_id flds =
     (let hit = (\<lambda>p. p_id p = person_id \<and> (\<exists>ms \<in> set (p_memberships p). ms_group_id ms = group_id))
      in if \<exists>p \<in> set (people store). hit p then
           (save_org_store (store\<lparr>people :=
              update_first hit
                (\<lambda>person. person\<lparr>p_memberships :=
                   update_first (\<lambda>ms. ms_group_id ms = group_id)
                     (\<lambda>ms. ms\<lparr>ms_updated_at := now,
                              ms_fields := dict_update (ms_fields ms) flds\<rparr>)
                     (p_memberships person)\<rparr>)
                (people store)\<rparr>), saved)
         else (store, False))"

subsection \<open>Performance operations\<close>

text \<open>\<open>person["performance"][...] = ...\<close> on a person that has a ledger.\<close>

definition update_performance ::
  "('f performance \<Rightarrow> 'f performance) \<Rightarrow> 'f person \<Rightarrow> 'f person" where
  "update_performance f person = person\<lparr>p_performance := map_option f (p_performance person)\<rparr>"

definition set_person_base_score ::
  "bool \<Rightarrow> ustr \<Rightarrow> ('f::zero) store \<Rightarrow> ustr \<Rightarrow> 'f \<Rightarrow> 'f store \<times> bool" where
  "set_person_base_score saved now store person_id score =
     (if \<exists>p \<in> set (people store). p_id p = person_id then
        (save_org_store (store\<lparr>people :=
           update_first (\<lambda>p. p_id p = person_id)
             (\<lambda>person. update_performance
                          (\<lambda>pf. pf\<lparr>base_score := score, perf_updated_at := now\<rparr>)
                          (ensure_performance now person))
             (people store)\<rparr>), saved)
      else (store, False))"

definition add_performance_event ::
  "bool \<Rightarrow> ustr \<Rightarrow> ('f::zero) store \<Rightarrow> ustr \<Rightarrow> 'f event \<Rightarrow> 'f store \<times> bool" where
  "add_performance_event saved now store person_id event =
     (if \<exists>p \<in> set (people store). p_id p = person_id then
        (save_org_store (store\<lparr>people :=
           update_first (\<lambda>p. p_id p = person_id)
             (\<lambda>person. update_performance
                          (\<lambda>pf. pf\<lparr>events := events pf @ [event], perf_updated_at := now\<rparr>)
                          (ensure_performance now person))
             (people store)\<rparr>), saved)
      else (store, False))"

text \<open>
  A patch for \<open>event.update(patch)\<close>: for each key of an event, the new value if the
  patch has the key.
\<close>

record 'f event_patch =
  pt_id :: "ustr option"
  pt_type :: "ustr option"
  pt_delta :: "'f option"
  pt_title :: "ustr option"
  pt_note :: "ustr option"
  pt_group_id :: "ustr option option"
  pt_at :: "ustr option"

definition patched :: "'a option \<Rightarrow> 'a \<Rightarrow> 'a" where
  "patched new old = (case new of Some v \<Rightarrow> v | None \<Rightarrow> old)"

definition apply_patch :: "'f event_patch \<Rightarrow> 'f event \<Rightarrow> 'f event" where
  "apply_patch patch e =
     \<lparr>ev_id = patched (pt_id patch) (ev_id e),
      ev_type = patched (pt_type patch) (ev_type e),
      ev_delta = patched (pt_delta patch) (ev_delta e),
      ev_title = patched (pt_title patch) (ev_title e),
      ev_note = patched (pt_note patch) (ev_note e),
      ev_group_id = patched (pt_group_id patch) (ev_group_id e),
      ev_at = patched (pt_at patch) (ev_at e)\<rparr>"

definition person_events :: "'f person \<Rightarrow> 'f event list" where
  "person_events person = (case p_performance person of Some pf \<Rightarrow> events pf | None \<Rightarrow> [])"

text \<open>
  The loops of \<open>update_performance_event\<close>: every person with the id gets its ledger
  ensured; the first of them that has an event with the event id is patched and the
  search ends (\<open>Some\<close> of the new list); \<open>None\<close> when the loops run out.
\<close>

fun update_event_loop ::
  "ustr \<Rightarrow> ustr \<Rightarrow> ustr \<Rightarrow> 'f event_patch \<Rightarrow> ('f::zero) person list \<Rightarrow> 'f person list option" where
  "update_event_loop now person_id event_id patch [] = None"
| "update_event_loop now person_id event_id patch (p # ps) =
     (if p_id p = person_id then
        (let p1 = ensure_performance now p
         in if \<exists>e \<in> set (person_events p1). ev_id e = event_id then
              Some (update_performance
                      (\<lambda>pf. pf\<lparr>events := update_first (\<lambda>e. ev_id e = event_id)
                                             (apply_patch patch) (events pf),
                                perf_updated_at := now\<rparr>) p1 # ps)
            else map_option ((#) p1) (update_event_loop now person_id event_id patch ps))
      else map_option ((#) p) (update_event_loop now person_id event_id patch ps))"

definition update_performance_event ::
  "bool \<Rightarrow> ustr \<Rightarrow> ('f::zero) store \<Rightarrow> ustr \<Rightarrow> ustr \<Rightarrow> 'f event_patch \<Rightarrow> 'f store \<times> bool" where
  "update_performance_event saved now store person_id event_id patch =
     (case update_event_loop now person_id event_id patch (people store) of
        Some ps \<Rightarrow> (save_org_store (store\<lparr>people := ps\<rparr>), saved)
      | None \<Rightarrow> (store, False))"

text \<open>
  The loop of \<open>delete_performance_event\<close>: the first person with the id that loses an
  event ends the search.
\<close>

fun delete_event_loop ::
  "ustr \<Rightarrow> ustr \<Rightarrow> ustr \<Rightarrow> ('f::zero) person list \<Rightarrow> 'f person list option" where
  "delete_event_loop now person_id event_id [] = None"
| "delete_event_loop now person_id event_id (p # ps) =
     (if p_id p = person_id then
        (let p1 = ensure_performance now p;
             before_len = length (person_events p1);
             p2 = update_performance
                    (\<lambda>pf. pf\<lparr>events := filter (\<lambda>e. ev_id e \<noteq> event_id) (events pf)\<rparr>) p1
         in if length (person_events p2) < before_len then
              Some (update_performance (\<lambda>pf. pf\<lparr>perf_updated_at := now\<rparr>) p2 # ps)
            else map_option ((#) p2) (delete_event_loop now person_id event_id ps))
      else map_option ((#) p) (delete_event_loop now person_id event_id ps))"

definition delete_performance_event ::
  "bool \<Rightarrow> ustr \<Rightarrow> ('f::zero) store \<Rightarrow> ustr \<Rightarrow> ustr \<Rightarrow> 'f store \<times> bool" where
  "delete_performance_event saved now store person_id event_id =
     (case delete_event_loop now person_id event_id (people store) of
        Some ps \<Rightarrow> (save_org_store (store\<lparr>people := ps\<rparr>), saved)
      | None \<Rightarrow> (store, False))"

section \<open>Schema migrator (store\_org.py)\<close>

text \<open>
  An item of a version 1 payload, a team or a member: a dict in which every key may be
  absent.
\<close>

datatype legacy =
  Legacy (l_id: "ustr option") (l_name: "ustr option") (l_created_at: "ustr option")
         (l_source: "ustr option") (l_profile: "json option") (l_members: "legacy list option")

definition get_or :: "'a option \<Rightarrow> 'a \<Rightarrow> 'a" where
  "get_or v dflt = (case v of Some x \<Rightarrow> x | None \<Rightarrow> dflt)"

text \<open>
  The migration draws random ids; \<open>U n\<close> is the string \<open>str(uuid.uuid4())\<close> of the
  \<open>n\<close>-th draw and the number of draws made so far is passed along with the store.
  \<open>_migrate_member_to_store\<close> draws once, in the branch that creates a person.
\<close>

definition legacy_membership :: "ustr \<Rightarrow> ustr \<Rightarrow> legacy \<Rightarrow> membership" where
  "legacy_membership now group_id old_member =
     \<lparr>ms_group_id = group_id,
      ms_joined_at = get_or (l_created_at old_member) now,
      ms_updated_at = now,
      ms_fields = [(u ''source'', JStr (get_or (l_source old_member) (u ''unknown'')))]\<rparr>"

text \<open>The branch \<open>if existing_person:\<close> of the migration, as a change of that person.\<close>

definition join_group :: "ustr \<Rightarrow> membership \<Rightarrow> 'f person \<Rightarrow> 'f person" where
  "join_group now membership existing_person =
     existing_person\<lparr>
       p_memberships :=
         (if \<not> (\<exists>m \<in> set (p_memberships existing_person).
                   ms_group_id m = ms_group_id membership)
          then p_memberships existing_person @ [membership]
          else p_memberships existing_person),
       p_updated_at := now\<rparr>"

definition migrate_member_to_store ::
  "builtins \<Rightarrow> ustr \<Rightarrow> (nat \<Rightarrow> ustr) \<Rightarrow> ustr \<Rightarrow> legacy \<Rightarrow> 'f store \<times> nat \<Rightarrow> 'f store \<times> nat" where
  "migrate_member_to_store B now U group_id old_member st =
     (let store = fst st; n = snd st;
          profile = get_or (l_profile old_member) (JDict []);
          (phone, email) = extract_contact_from_profile B profile;
          dedup = compute_dedup_key B phone email;
          name = (case profile of
                    JDict d \<Rightarrow>
                      (let nm = dict_get d k_xingming (JStr (get_or (l_name old_member) unknown_name))
                       in if nm = JStr not_provided then
                            JStr (get_or (l_name old_member)
                                    (member_prefix @ take 4 (get_or (l_id old_member) [])))
                          else nm)
                  | _ \<Rightarrow> JStr unknown_name);
          existing_person =
            (if key dedup \<noteq> []
             then List.find (\<lambda>p. key (p_dedup p) = key dedup) (people store) else None);
          membership = legacy_membership now group_id old_member
      in case existing_person of
           Some ep \<Rightarrow>
             (store\<lparr>people :=
                update_first (\<lambda>p. key (p_dedup p) = key dedup) (join_group now membership)
                  (people store)\<rparr>, n)
         | None \<Rightarrow>
             (store\<lparr>people := people store @
                [\<lparr>p_id = get_or (l_id old_member) (take 8 (U n)),
                  p_name = name,
                  p_phone = normalize_phone B phone,
                  p_email = normalize_email B email,
                  p_dedup = dedup,
                  p_created_at = get_or (l_created_at old_member) now,
                  p_updated_at = now,
                  p_profile = profile,
                  p_sources = [\<lparr>src_type = get_or (l_source old_member) (u ''unknown''),
                                src_imported_at = get_or (l_created_at old_member) now\<rparr>],
                  p_memberships = [membership],
                  p_performance = None\<rparr>]\<rparr>, Suc n))"

text \<open>One round of the loop over the teams: the group is appended, then the members.\<close>

definition migrate_team ::
  "builtins \<Rightarrow> ustr \<Rightarrow> (nat \<Rightarrow> ustr) \<Rightarrow> legacy \<Rightarrow> 'f store \<times> nat \<Rightarrow> 'f store \<times> nat" where
  "migrate_team B now U old_team st =
     (let store = fst st; n = snd st;
          group_id = get_or (l_id old_team) (take 8 (U n));
          group_name = get_or (l_name old_team) [0x9ED8, 0x8BA4, 0x5C0F, 0x7EC4];
          store1 = store\<lparr>groups := groups store @
                     [\<lparr>g_id = group_id, g_name = group_name, g_description = [], g_tags = [],
                       g_created_at = get_or (l_created_at old_team) now,
                       g_updated_at = now\<rparr>]\<rparr>
      in fold (migrate_member_to_store B now U group_id)
              (get_or (l_members old_team) []) (store1, Suc n))"

definition migrate_from_v1 ::
  "builtins \<Rightarrow> ustr \<Rightarrow> (nat \<Rightarrow> ustr) \<Rightarrow> legacy list \<Rightarrow> 'f store" where
  "migrate_from_v1 B now U old_data =
     (let store = create_empty_org_store now
      in case old_data of
           [] \<Rightarrow> store
         | first_item # _ \<Rightarrow>
             if l_members first_item \<noteq> None then
               fst (fold (migrate_team B now U) old_data (store, 0))
             else if l_profile first_item \<noteq> None then
               fst (fold (migrate_member_to_store B now U (u ''default_group'')) old_data
                      (store\<lparr>groups := groups store @
                         [\<lparr>g_id = u ''default_group'',
                           g_name = [0x9ED8, 0x8BA4, 0x5C0F, 0x7EC4],
                           g_description = [0x4ECE, 0x65E7, 0x6570, 0x636E, 0x8FC1, 0x79FB],
                           g_tags = [], g_created_at = now, g_updated_at = now\<rparr>]\<rparr>, 0))
             else store)"

definition migrate_v2_to_v3 :: "ustr \<Rightarrow> ('f::zero) store \<Rightarrow> 'f store" where
  "migrate_v2_to_v3 now store =
     store\<lparr>people := map (ensure_performance now) (people store),
           schema_version := Some SCHEMA_VERSION\<rparr>"

text \<open>
  What the data file can hold: nothing, text that does not parse, a dict, a list of
  dicts, or another JSON value. \<open>load_org_store\<close> returns the document in use; the
  migrated documents are also the ones written back.
\<close>

datatype 'f raw_doc =
    NoFile
  | Unreadable
  | Doc "'f store"
  | LegacyList "legacy list"
  | OtherJson

definition load_org_store ::
  "builtins \<Rightarrow> ustr \<Rightarrow> (nat \<Rightarrow> ustr) \<Rightarrow> ('f::zero) raw_doc \<Rightarrow> 'f store" where
  "load_org_store B now U file =
     (case file of
        NoFile \<Rightarrow> create_empty_org_store now
      | Unreadable \<Rightarrow> create_empty_org_store now
      | Doc data \<Rightarrow>
          if schema_version data = Some SCHEMA_VERSION then data
          else if schema_version data = Some 2 then save_org_store (migrate_v2_to_v3 now data)
          else save_org_store (migrate_v2_to_v3 now (create_empty_org_store now))
      | LegacyList old_data \<Rightarrow>
          save_org_store (migrate_v2_to_v3 now (migrate_from_v1 B now U old_data))
      | OtherJson \<Rightarrow> save_org_store (migrate_v2_to_v3 now (create_empty_org_store now)))"

text \<open>
  The effect of \<open>save_org_store\<close> on the data file, and the boolean it returns. The
  document is stamped with the schema version, the file is opened for writing, which
  empties it, and \<open>json.dump\<close> writes the text piece by piece. The outcome is a
  parameter: the text is written in full; or \<open>open\<close> raises, and the file stays as it
  was; or the write breaks off after \<open>open\<close> (so when \<open>json.dump\<close> raises, as it does
  on a string that holds a lone surrogate, U+D800 to U+DFFF), and the file is left with
  a text that does not parse. The boolean is the parameter \<open>saved\<close> of the operations
  above. Every operation starts with \<open>load_org_store\<close> on the file as the previous
  operations left it.
\<close>

datatype write_outcome = Written | Not_Opened | Broken_Off

definition write_org_store ::
  "write_outcome \<Rightarrow> 'f store \<Rightarrow> 'f raw_doc \<Rightarrow> 'f raw_doc \<times> bool" where
  "write_org_store outcome store file =
     (case outcome of
        Written \<Rightarrow> (Doc (save_org_store store), True)
      | Not_Opened \<Rightarrow> (file, False)
      | Broken_Off \<Rightarrow> (Unreadable, False))"

section \<open>Properties named by the specification\<close>

text \<open>The group ids of a person's memberships, in order.\<close>

definition group_ids :: "'f person \<Rightarrow> ustr list" where
  "group_ids p = map ms_group_id (p_memberships p)"

text \<open>Membership uniqueness: no person has two memberships of the same group.\<close>

definition memberships_unique :: "'f store \<Rightarrow> bool" where
  "memberships_unique s \<longleftrightarrow> (\<forall>p \<in> set (people s). distinct (group_ids p))"

text \<open>The dedup key the migration computes for a legacy member, from its embedded profile.\<close>

definition member_key :: "builtins \<Rightarrow> legacy \<Rightarrow> ustr" where
  "member_key B old_member = profile_dedup_key B (get_or (l_profile old_member) (JDict []))"

text \<open>
  Notions for the migration: the non-empty dedup keys of a list of people; the two
  invariants of the people built so far (no non-empty key twice, no group twice in a
  person's memberships); the fact that some person with key \<open>k\<close> is a member of group
  \<open>g\<close>; and the id the migration gives the group of a team when \<open>n\<close> draws were made.
\<close>

definition keys_of :: "'f person list \<Rightarrow> ustr list" where
  "keys_of ps = filter (\<lambda>k. k \<noteq> []) (map (\<lambda>p. key (p_dedup p)) ps)"

definition people_ok :: "'f person list \<Rightarrow> bool" where
  "people_ok ps \<longleftrightarrow> distinct (keys_of ps) \<and> (\<forall>p \<in> set ps. distinct (group_ids p))"

definition linked :: "'f person list \<Rightarrow> ustr \<Rightarrow> ustr \<Rightarrow> bool" where
  "linked ps k g \<longleftrightarrow> (\<exists>p \<in> set ps. key (p_dedup p) = k \<and> g \<in> set (group_ids p))"

definition team_gid :: "(nat \<Rightarrow> ustr) \<Rightarrow> nat \<Rightarrow> legacy \<Rightarrow> ustr" where
  "team_gid U n t = get_or (l_id t) (take 8 (U n))"

text \<open>
  The scope of a group as the specification words it: the events whose \<open>group_id\<close> is
  the given group or null.
\<close>

definition spec_scope_events :: "ustr \<Rightarrow> 'f event list \<Rightarrow> 'f event list" where
  "spec_scope_events G evs = filter (\<lambda>e. ev_group_id e = Some G \<or> ev_group_id e = None) evs"

section \<open>Example inputs\<close>

text \<open>
  A profile whose first phone alias holds the sentinel and whose third holds a number:
  \<open>{"\<dots>": <not provided>, "\<dots>": "13812345678"}\<close> with the keys U+7535 U+8BDD
  and U+624B U+673A.
\<close>

definition profile_placeholder :: json where
  "profile_placeholder =
     JDict [(k_dianhua, JStr not_provided), (k_shouji, JStr (u ''13812345678''))]"

text \<open>
  A ledger with one contribution of group \<open>G1\<close> and one global manual adjustment. Its
  scores are whole numbers, written as integers, which every summation adds exactly.
\<close>

definition ledger_two :: "int performance" where
  "ledger_two =
     \<lparr>base_score = 60,
      events =
        [\<lparr>ev_id = u ''e_1'', ev_type = u ''contribution'', ev_delta = 10, ev_title = u ''A'',
          ev_note = [], ev_group_id = Some (u ''G1''), ev_at = u ''2024-01-01''\<rparr>,
         \<lparr>ev_id = u ''e_2'', ev_type = u ''manual_adjust'', ev_delta = 3, ev_title = u ''B'',
          ev_note = [], ev_group_id = None, ev_at = u ''2024-01-02''\<rparr>],
      perf_updated_at = u ''2024-01-02 00:00:00''\<rparr>"

text \<open>
  A version 3 document with the groups \<open>G1\<close> and \<open>G2\<close> and two people: \<open>p1\<close>, with
  the phone 13812345678, a member of both groups and the owner of \<open>ledger_two\<close>; and
  \<open>p2\<close>, without contact data, a member of \<open>G1\<close>.
\<close>

definition demo_profile :: json where
  "demo_profile = JDict [(k_xingming, JStr [0x5F20, 0x4E09]), (k_dianhua, JStr (u ''138-1234-5678''))]"

definition demo_person :: "int person" where
  "demo_person =
     \<lparr>p_id = u ''p1'', p_name = JStr [0x5F20, 0x4E09],
          p_phone = u ''13812345678'', p_email = [],
          p_dedup = \<lparr>strategy = u ''phone_then_email'', key = u ''phone:13812345678''\<rparr>,
          p_created_at = u ''t0'', p_updated_at = u ''t0'',
          p_profile = demo_profile,
          p_sources = [\<lparr>src_type = u ''file_upload'', src_imported_at = u ''t0''\<rparr>],
          p_memberships =
            [\<lparr>ms_group_id = u ''G1'', ms_joined_at = u ''t0'', ms_updated_at = u ''t0'',
              ms_fields = [(u ''role'', JStr (u ''lead''))]\<rparr>,
             \<lparr>ms_group_id = u ''G2'', ms_joined_at = u ''t0'', ms_updated_at = u ''t0'',
              ms_fields = []\<rparr>],
          p_performance = Some ledger_two\<rparr>"

definition demo_store :: "int store" where
  "demo_store =
     \<lparr>schema_version = Some 3,
      org = \<lparr>org_id = u ''org_default'', org_name = u ''Org'',
             org_created_at = u ''t0'', org_updated_at = u ''t0''\<rparr>,
      groups =
        [\<lparr>g_id = u ''G1'', g_name = u ''One'', g_description = [], g_tags = [],
          g_created_at = u ''t0'', g_updated_at = u ''t0''\<rparr>,
         \<lparr>g_id = u ''G2'', g_name = u ''Two'', g_description = [], g_tags = [],
          g_created_at = u ''t0'', g_updated_at = u ''t0''\<rparr>],
      people =
        [demo_person,
         \<lparr>p_id = u ''p2'', p_name = JStr (u ''Bo''),
          p_phone = [], p_email = [],
          p_dedup = \<lparr>strategy = u ''phone_then_email'', key = []\<rparr>,
          p_created_at = u ''t0'', p_updated_at = u ''t0'',
          p_profile = JDict [(k_xingming, JStr (u ''Bo''))],
          p_sources = [\<lparr>src_type = u ''text_analysis'', src_imported_at = u ''t0''\<rparr>],
          p_memberships =
            [\<lparr>ms_group_id = u ''G1'', ms_joined_at = u ''t0'', ms_updated_at = u ''t0'',
              ms_fields = []\<rparr>],
          p_performance = None\<rparr>]\<rparr>"

text \<open>Built-ins for the examples: ASCII lower-casing, and an empty rendering.\<close>

definition demo_builtins :: builtins where
  "demo_builtins =
     \<lparr>str_lower = map (\<lambda>c. if 0x41 \<le> c \<and> c \<le> 0x5A then c + 0x20 else c),
      str_repr = (\<lambda>v. [])\<rparr>"

text \<open>
  The second import of the specification's scenario: the same phone without the hyphens
  and an education field (keys U+7535 U+8BDD and U+6559 U+80B2 U+80CC U+666F).
\<close>

definition profile_b :: json where
  "profile_b = JDict [(k_dianhua, JStr (u ''13812345678'')),
                      ([0x6559, 0x80B2, 0x80CC, 0x666F], JStr [0x7855, 0x58EB])]"



text \<open>\<open>profile_b\<close> imported into the example document, for group \<open>G1\<close>.\<close>

definition demo_merge :: "int store \<times> ustr \<times> bool" where
  "demo_merge =
     upsert_person demo_builtins (u ''t2'') (u ''11112222-cccc'') (u ''33334444-dddd'')
       demo_store profile_b (u ''text_analysis'') (Some (u ''G1'')) None"





text \<open>
  The example document after \<open>p1\<close> was added to the group whose id is the empty string,
  and \<open>profile_b\<close> imported into it for that group, with a field.
\<close>

definition demo_blank :: "int store" where
  "demo_blank = fst (add_person_to_group True (u ''t1'') demo_store (u ''p1'') [] None)"

definition demo_blank_merge :: "int store \<times> ustr \<times> bool" where
  "demo_blank_merge =
     upsert_person demo_builtins (u ''t2'') (u ''11112222-cccc'') (u ''33334444-dddd'')
       demo_blank profile_b (u ''text_analysis'') (Some [])
       (Some [(u ''role'', JStr (u ''dev''))])"

text \<open>
  A version 1 payload: two teams with one member each; the members carry the two
  profiles of the scenario, so both have the phone 13812345678.
\<close>

definition demo_member1 :: legacy where
  "demo_member1 = Legacy (Some (u ''m1'')) (Some (u ''Zhang'')) None (Some (u ''file_upload''))
                         (Some demo_profile) None"

definition demo_member2 :: legacy where
  "demo_member2 = Legacy (Some (u ''m2'')) None None None (Some profile_b) None"

definition demo_team1 :: legacy where
  "demo_team1 = Legacy (Some (u ''T1'')) (Some (u ''Team one'')) None None None (Some [demo_member1])"

definition demo_team2 :: legacy where
  "demo_team2 = Legacy (Some (u ''T2'')) (Some (u ''Team two'')) None None None (Some [demo_member2])"

definition demo_migrated :: "int store" where
  "demo_migrated =
     load_org_store demo_builtins (u ''t9'') (\<lambda>n. u ''ffffffff-0000'')
       (LegacyList [demo_team1, demo_team2])"

text \<open>
  Two ledgers with base score 0.0 and the same four events in different orders; the
  deltas are \<open>2 ^ 1023\<close> (8.98846567431158e+307) twice and its negative twice.
\<close>

definition big :: f64 where "big = Fin 1 1023"
definition neg_big :: f64 where "neg_big = Fin (- 1) 1023"

definition score_event :: "ustr \<Rightarrow> f64 \<Rightarrow> f64 event" where
  "score_event i d =
     \<lparr>ev_id = i, ev_type = u ''manual_adjust'', ev_delta = d, ev_title = [], ev_note = [],
      ev_group_id = None, ev_at = u ''2024-01-01''\<rparr>"

definition ledger_a :: "f64 performance" where
  "ledger_a =
     \<lparr>base_score = Fin 0 0,
      events = [score_event (u ''e1'') big, score_event (u ''e2'') big,
                score_event (u ''e3'') neg_big, score_event (u ''e4'') neg_big],
      perf_updated_at = []\<rparr>"

definition ledger_b :: "f64 performance" where
  "ledger_b =
     \<lparr>base_score = Fin 0 0,
      events = [score_event (u ''e1'') big, score_event (u ''e3'') neg_big,
                score_event (u ''e2'') big, score_event (u ''e4'') neg_big],
      perf_updated_at = []\<rparr>"

text \<open>A ledger with base score 72.5 and the deltas 5.0, 0.5 and -3.0.\<close>

definition ledger_half :: "f64 performance" where
  "ledger_half =
     \<lparr>base_score = Fin 145 (- 1),
      events = [score_event (u ''e1'') (Fin 5 0), score_event (u ''e2'') (Fin 1 (- 1)),
                score_event (u ''e3'') (Fin (- 3) 0)],
      perf_updated_at = []\<rparr>"

section \<open>Contact extraction and placeholders\<close>

text \<open>
  C3. The specification has contact extraction skip placeholder values ("not provided",
  "unknown", "none", "n/a", ...) and return the first alias value that is not missing.
  \<open>_extract_contact_from_profile\<close> tests truthiness only: on a profile whose first
  phone alias holds the sentinel and whose third alias holds the number 13812345678, it
  returns the sentinel as the phone, the number is never looked at, and the dedup key
  computed from the result is empty.
\<close>

theorem C3_placeholder_extracted:
  "extract_contact_from_profile B profile_placeholder = (JStr not_provided, JStr []) \<and>
   key (compute_dedup_key B (fst (extract_contact_from_profile B profile_placeholder))
                            (snd (extract_contact_from_profile B profile_placeholder))) = []"
  by (simp add: extract_contact_from_profile_def profile_placeholder_def phone_keys_def
      email_keys_def dict_get_def py_str_def k_dianhua_def k_shouji_def k_lianxi_fangshi_def
      k_youxiang_def k_lianxi_youxiang_def k_lianxi_dianhua_def not_provided_def u_def
      compute_dedup_key_def normalize_phone_def normalize_email_def)

text \<open>
  On the same profile \<open>extract_contact\<close> of profile\_validation.py passes over the
  sentinel and returns the number.
\<close>

lemma strip_demo:
  "strip not_provided = not_provided" "strip (u ''13812345678'') = u ''13812345678''"
  by (simp_all add: strip_def is_space_def not_provided_def u_def)

lemma lower_demo:
  "str_lower demo_builtins not_provided = not_provided"
  "str_lower demo_builtins (u ''13812345678'') = u ''13812345678''"
  by (simp_all add: demo_builtins_def not_provided_def u_def)

lemma is_missing_demo:
  "is_missing demo_builtins (JStr not_provided)"
  "\<not> is_missing demo_builtins (JStr (u ''13812345678''))"
  by (simp_all add: is_missing_str_def strip_demo lower_demo MISSING_STRINGS_def)
     (simp add: u_def not_provided_def)

lemma extract_contact_skips_placeholder:
  "extract_contact demo_builtins profile_placeholder = (u ''13812345678'', [])"
  by (simp add: extract_contact_def profile_placeholder_def phone_keys_def email_keys_def
      is_missing_demo strip_demo py_str_def dict_get_def
      k_dianhua_def k_shouji_def k_lianxi_dianhua_def k_lianxi_fangshi_def k_youxiang_def
      k_lianxi_youxiang_def del: is_missing.simps)
     (simp add: u_def)

section \<open>Scoped summaries\<close>

text \<open>
  C4, as stated: for every supplied group id \<open>G\<close> the summary aggregates exactly the
  events whose group is \<open>G\<close> or null. It fails for the empty string, which the guard
  \<open>if group_id:\<close> treats as no group at all: the summary of \<open>ledger_two\<close> for
  \<open>G = ""\<close> counts both events and adds both deltas, although the first event is
  tagged \<open>G1\<close>.
\<close>

theorem C4_empty_group_id_counterexample:
  "s_event_count (get_summary plain_sum ledger_two (Some [])) = 2 \<and>
   length (spec_scope_events [] (events ledger_two)) = 1 \<and>
   s_contribution_total (get_summary plain_sum ledger_two (Some [])) = 10 \<and>
   plain_sum (map ev_delta (filter (\<lambda>e. ev_type e = u ''contribution'')
                                   (spec_scope_events [] (events ledger_two)))) = 0 \<and>
   s_current_score (get_summary plain_sum ledger_two (Some [])) = 73 \<and>
   base_score ledger_two + plain_sum (map ev_delta (spec_scope_events [] (events ledger_two))) = 63"
  by (simp add: get_summary_def ledger_two_def spec_scope_events_def plain_sum_def
      EVENT_TYPE_CONTRIBUTION_def u_def)

text \<open>
  C4, amended: for every non-empty group id \<open>G\<close>, the summary is computed over the
  sublist \<open>S\<close> of the events whose group is \<open>G\<close> or null: the event count is the
  length of \<open>S\<close>, the contribution total and count range over the contributions in
  \<open>S\<close>, the current score is the base score plus the sum of the deltas of \<open>S\<close>, and
  \<open>S\<close> holds exactly the events of the ledger whose group is \<open>G\<close> or null.
\<close>

theorem C4_scoped_summary:
  fixes perf :: "('f::plus) performance"
  assumes "G \<noteq> []"
  shows "get_summary py_sum perf (Some G) =
           \<lparr>s_base_score = base_score perf,
            s_current_score =
              base_score perf + py_sum (map ev_delta (spec_scope_events G (events perf))),
            s_contribution_total =
              py_sum (map ev_delta (filter (\<lambda>e. ev_type e = u ''contribution'')
                                           (spec_scope_events G (events perf)))),
            s_contribution_count =
              length (filter (\<lambda>e. ev_type e = u ''contribution'')
                             (spec_scope_events G (events perf))),
            s_event_count = length (spec_scope_events G (events perf)),
            s_last_updated = perf_updated_at perf\<rparr> \<and>
         set (spec_scope_events G (events perf)) =
           {e \<in> set (events perf). ev_group_id e = Some G \<or> ev_group_id e = None}"
  using assms
  by (simp add: get_summary_def Let_def in_scope_def[abs_def] spec_scope_events_def
      EVENT_TYPE_CONTRIBUTION_def)

theorem C4_scoped_summary_witness:
  "u ''G2'' \<noteq> [] \<and>
   s_event_count (get_summary plain_sum ledger_two (Some (u ''G2''))) = 1 \<and>
   s_contribution_total (get_summary plain_sum ledger_two (Some (u ''G2''))) = 0 \<and>
   s_current_score (get_summary plain_sum ledger_two (Some (u ''G2''))) = 63"
proof -
  have ne: "u ''G2'' \<noteq> []" by (simp add: u_def)
  show ?thesis
    using ne C4_scoped_summary[OF ne, of plain_sum ledger_two]
    by (simp add: ledger_two_def plain_sum_def u_def spec_scope_events_def)
qed

section \<open>Auxiliary facts\<close>

lemma u_inj [simp]: "u a = u b \<longleftrightarrow> a = b"
  unfolding u_def by (rule inj_map_eq_map) (simp add: inj_on_def)

lemma u_Nil [simp]: "u a = [] \<longleftrightarrow> a = []" "[] = u a \<longleftrightarrow> a = []"
  by (auto simp: u_def)

lemma map_update_first: "(\<And>x. g (f x) = g x) \<Longrightarrow> map g (update_first P f xs) = map g xs"
  by (induction xs) auto

lemma length_update_first [simp]: "length (update_first P f xs) = length xs"
  by (induction xs) auto

lemma update_first_none: "\<not> (\<exists>x \<in> set xs. P x) \<Longrightarrow> update_first P f xs = xs"
  by (induction xs) auto


section \<open>Group deletion\<close>



section \<open>Upsert\<close>

lemma people_save [simp]: "people (save_org_store s) = people s"
  and groups_save [simp]: "groups (save_org_store s) = groups s"
  by (simp_all add: save_org_store_def)

lemma merge_person_frame [simp]:
  "p_id (merge_person now pd src g mf p) = p_id p"
  "p_name (merge_person now pd src g mf p) = p_name p"
  "p_phone (merge_person now pd src g mf p) = p_phone p"
  "p_email (merge_person now pd src g mf p) = p_email p"
  "p_dedup (merge_person now pd src g mf p) = p_dedup p"
  "p_created_at (merge_person now pd src g mf p) = p_created_at p"
  "p_performance (merge_person now pd src g mf p) = p_performance p"
  by (simp_all add: merge_person_def Let_def)

lemma upsert_person_matched:
  assumes "profile_dedup_key B pd \<noteq> []"
    and "List.find (\<lambda>p. key (p_dedup p) = profile_dedup_key B pd) (people s) = Some ep"
  shows "upsert_person B now nu iu s pd src g mf =
           (save_org_store (s\<lparr>people :=
              update_first (\<lambda>p. key (p_dedup p) = profile_dedup_key B pd)
                (merge_person now pd src g mf) (people s)\<rparr>), (p_id ep, False))"
  using assms by (simp add: upsert_person_def profile_dedup_key_def split_def Let_def)

lemma upsert_person_created:
  assumes "profile_dedup_key B pd = [] \<or>
           List.find (\<lambda>p. key (p_dedup p) = profile_dedup_key B pd) (people s) = None"
  shows "\<exists>np. upsert_person B now nu iu s pd src g mf =
           (save_org_store (s\<lparr>people := people s @ [np]\<rparr>), (take 8 iu, True)) \<and>
           key (p_dedup np) = profile_dedup_key B pd \<and> p_id np = take 8 iu \<and>
           p_memberships np = new_memberships now src g mf"
  using assms by (auto simp add: upsert_person_def profile_dedup_key_def split_def Let_def)

lemma upsert_person_is_new:
  "snd (snd (upsert_person B now nu iu s pd src g mf)) \<longleftrightarrow>
     (profile_dedup_key B pd = [] \<or>
      List.find (\<lambda>p. key (p_dedup p) = profile_dedup_key B pd) (people s) = None)"
  by (auto simp add: upsert_person_def profile_dedup_key_def split_def Let_def split: option.splits)


lemma find_update_first:
  "List.find P xs = Some x \<Longrightarrow> P (f x) \<Longrightarrow> List.find P (update_first P f xs) = Some (f x)"
  by (induction xs) (auto split: if_splits)



lemma profile_dedup_key_phone:
  "normalize_phone B (fst (extract_contact_from_profile B pd)) = n \<Longrightarrow> n \<noteq> [] \<Longrightarrow>
   profile_dedup_key B pd = u ''phone:'' @ n"
  by (auto simp add: profile_dedup_key_def compute_dedup_key_def Let_def)





lemma save_stamped: "schema_version s = Some SCHEMA_VERSION \<Longrightarrow> save_org_store s = s"
  by (cases s) (simp add: save_org_store_def)

lemma load_written:
  assumes "write_org_store outcome s file = (file', True)"
    and "schema_version s = Some SCHEMA_VERSION"
  shows "load_org_store B t U file' = s"
  using assms
  by (cases outcome) (auto simp add: write_org_store_def load_org_store_def save_stamped)








lemma extract_demo_profile:
  "extract_contact_from_profile B demo_profile = (JStr (u ''138-1234-5678''), JStr [])"
  by (simp add: extract_contact_from_profile_def demo_profile_def phone_keys_def email_keys_def
      dict_get_def py_str_def k_dianhua_def k_xingming_def k_lianxi_fangshi_def k_youxiang_def
      k_lianxi_youxiang_def u_def)

lemma extract_profile_b:
  "extract_contact_from_profile B profile_b = (JStr (u ''13812345678''), JStr [])"
  by (simp add: extract_contact_from_profile_def profile_b_def phone_keys_def email_keys_def
      dict_get_def py_str_def k_dianhua_def k_lianxi_fangshi_def k_youxiang_def
      k_lianxi_youxiang_def u_def)

lemma normalize_phone_demo:
  "normalize_phone B (JStr (u ''138-1234-5678'')) = u ''13812345678''"
  "normalize_phone B (JStr (u ''13812345678'')) = u ''13812345678''"
  by (simp_all add: normalize_phone_def py_str_def strip_def phone_junk_def is_space_def
      not_provided_def u_def)


section \<open>Membership uniqueness\<close>

lemma all_update_first:
  "\<forall>x \<in> set xs. Q x \<Longrightarrow> (\<And>x. Q x \<Longrightarrow> Q (f x)) \<Longrightarrow> \<forall>x \<in> set (update_first P f xs). Q x"
  by (induction xs) auto

lemma touch_membership_ids:
  "map ms_group_id (update_first P (\<lambda>ms. ms\<lparr>ms_updated_at := t, ms_fields := h ms\<rparr>) mss) =
   map ms_group_id mss"
  by (rule map_update_first) simp

lemma merge_person_unique:
  "distinct (group_ids p) \<Longrightarrow> distinct (group_ids (merge_person now pd src g mf p))"
  by (auto simp add: group_ids_def merge_person_def Let_def touch_membership_ids split: option.splits)

lemma new_memberships_unique: "distinct (map ms_group_id (new_memberships now src g mf))"
  by (simp add: new_memberships_def split: option.splits)

lemma upsert_person_unique:
  assumes "memberships_unique s"
  shows "memberships_unique (fst (upsert_person B now nu iu s pd src g mf))"
proof (cases "snd (snd (upsert_person B now nu iu s pd src g mf))")
  case True
  then obtain np where "upsert_person B now nu iu s pd src g mf =
      (save_org_store (s\<lparr>people := people s @ [np]\<rparr>), (take 8 iu, True))"
    and "p_memberships np = new_memberships now src g mf"
    using upsert_person_created [of B pd s now nu iu src g mf]
    by (auto simp add: upsert_person_is_new)
  with assms show ?thesis
    by (auto simp add: memberships_unique_def group_ids_def new_memberships_unique)
next
  case False
  then have k: "profile_dedup_key B pd \<noteq> []"
    and "List.find (\<lambda>p. key (p_dedup p) = profile_dedup_key B pd) (people s) \<noteq> None"
    by (simp_all add: upsert_person_is_new)
  then obtain ep where
    "List.find (\<lambda>p. key (p_dedup p) = profile_dedup_key B pd) (people s) = Some ep" by auto
  note m = upsert_person_matched [OF k this, of now nu iu src g mf]
  have "\<forall>p \<in> set (update_first (\<lambda>p. key (p_dedup p) = profile_dedup_key B pd)
                       (merge_person now pd src g mf) (people s)). distinct (group_ids p)"
    using assms
    by (intro all_update_first) (simp_all add: memberships_unique_def group_ids_def merge_person_unique [unfolded group_ids_def])
  then show ?thesis
    by (simp add: m memberships_unique_def group_ids_def)
qed

lemma add_membership_ids:
  "group_ids (add_membership now gid flds p) =
     (if gid \<in> set (group_ids p) then group_ids p else group_ids p @ [gid])"
  by (auto simp add: add_membership_def group_ids_def touch_membership_ids)

lemma add_membership_facts:
  "p_id (add_membership now gid flds p) = p_id p"
  "gid \<in> set (group_ids (add_membership now gid flds p))"
  "distinct (group_ids p) \<Longrightarrow> distinct (group_ids (add_membership now gid flds p))"
  "gid \<in> set (group_ids p) \<Longrightarrow> group_ids (add_membership now gid flds p) = group_ids p"
  by (simp_all add: add_membership_ids) (simp add: add_membership_def)

lemma add_twice_ids:
  "map group_ids (update_first (\<lambda>p. p_id p = pid) (add_membership now2 gid flds2)
                    (update_first (\<lambda>p. p_id p = pid) (add_membership now gid flds) xs)) =
   map group_ids (update_first (\<lambda>p. p_id p = pid) (add_membership now gid flds) xs)"
  by (induction xs) (simp_all add: add_membership_facts)

lemma exists_update_first:
  "(\<And>x. g (f x) = g x) \<Longrightarrow> (\<exists>x \<in> set (update_first P f xs). g x = a) \<longleftrightarrow> (\<exists>x \<in> set xs. g x = a)"
  by (induction xs) auto

lemma add_person_to_group_twice:
  "map group_ids (people (fst (add_person_to_group saved2 now2
      (fst (add_person_to_group saved now s pid gid flds)) pid gid flds2))) =
   map group_ids (people (fst (add_person_to_group saved now s pid gid flds)))"
proof (cases "\<exists>p \<in> set (people s). p_id p = pid")
  case True
  then have "\<exists>p \<in> set (update_first (\<lambda>p. p_id p = pid) (add_membership now gid flds) (people s)).
      p_id p = pid"
    by (simp add: exists_update_first [where g = p_id] add_membership_facts)
  with True show ?thesis
    by (simp add: add_person_to_group_def add_twice_ids)
next
  case False
  then show ?thesis by (simp add: add_person_to_group_def)
qed


lemma map_update_first_found:
  "List.find P xs = Some x \<Longrightarrow> g (f x) = g x \<Longrightarrow> map g (update_first P f xs) = map g xs"
  by (induction xs) (auto split: if_splits)

lemma find_Some_exists: "(\<exists>x \<in> set xs. P x) \<Longrightarrow> \<exists>x. List.find P xs = Some x \<and> P x"
  by (induction xs) auto

lemma unique_update_first:
  assumes "memberships_unique s"
    and "\<And>p. distinct (group_ids p) \<Longrightarrow> distinct (group_ids (F p))"
  shows "memberships_unique (save_org_store (s\<lparr>people := update_first Q F (people s)\<rparr>))"
proof -
  have "\<forall>p \<in> set (update_first Q F (people s)). distinct (group_ids p)"
    using assms by (intro all_update_first) (simp_all add: memberships_unique_def group_ids_def)
  then show ?thesis
    by (simp add: memberships_unique_def group_ids_def)
qed

lemma remove_unique:
  "memberships_unique s \<Longrightarrow> memberships_unique (fst (remove_person_from_group saved s pid gid))"
  unfolding remove_person_from_group_def
  by (auto intro!: unique_update_first simp add: group_ids_def distinct_map_filter)

lemma update_fields_unique:
  "memberships_unique s \<Longrightarrow>
   memberships_unique (fst (update_membership_fields saved now s pid gid flds'))"
  unfolding update_membership_fields_def Let_def
  by (auto intro!: unique_update_first simp add: group_ids_def touch_membership_ids)

lemma delete_group_unique:
  "memberships_unique s \<Longrightarrow> memberships_unique (fst (delete_group saved s gid))"
  by (simp add: memberships_unique_def group_ids_def delete_group_def distinct_map_filter)

lemma add_unique:
  "memberships_unique s \<Longrightarrow>
   memberships_unique (fst (add_person_to_group saved now s pid gid flds))"
  unfolding add_person_to_group_def
  by (auto intro!: unique_update_first simp add: add_membership_facts)

lemma merge_person_same_ids:
  "gid \<in> set (group_ids ep) \<Longrightarrow>
   group_ids (merge_person now pd src (Some gid) mf ep) = group_ids ep"
  by (auto simp add: group_ids_def merge_person_def Let_def touch_membership_ids)

lemma upsert_existing_membership:
  assumes "profile_dedup_key B pd \<noteq> []"
    and "List.find (\<lambda>p. key (p_dedup p) = profile_dedup_key B pd) (people s) = Some ep"
    and "gid \<in> set (group_ids ep)"
  shows "map group_ids (people (fst (upsert_person B now nu iu s pd src (Some gid) mf))) =
         map group_ids (people s)"
  using assms
  by (simp add: upsert_person_matched map_update_first_found merge_person_same_ids)

lemma find_touch:
  "List.find (\<lambda>m. ms_group_id m = gid) mss = Some m \<Longrightarrow>
   List.find (\<lambda>m. ms_group_id m = gid)
     (update_first (\<lambda>m. ms_group_id m = gid) (\<lambda>ms. ms\<lparr>ms_updated_at := t, ms_fields := h ms\<rparr>) mss) =
   Some (m\<lparr>ms_updated_at := t, ms_fields := h m\<rparr>)"
  by (rule find_update_first) (auto dest: find_Some_iff [THEN iffD1])

lemma find_Some_mem: "List.find P xs = Some x \<Longrightarrow> x \<in> set xs \<and> P x"
  by (induction xs) (auto split: if_splits)

lemma add_membership_touches:
  assumes "List.find (\<lambda>m. ms_group_id m = gid) (p_memberships p) = Some m"
  shows "List.find (\<lambda>m. ms_group_id m = gid) (p_memberships (add_membership t gid flds p)) =
           Some (m\<lparr>ms_updated_at := t, ms_fields := dict_update (ms_fields m) (fields_or flds [])\<rparr>)"
proof -
  from assms have "\<exists>m \<in> set (p_memberships p). ms_group_id m = gid"
    by (auto dest: find_Some_mem)
  with find_touch [OF assms] show ?thesis
    by (simp add: add_membership_def)
qed

lemma merge_person_touches:
  assumes "List.find (\<lambda>m. ms_group_id m = gid) (p_memberships p) = Some m" "gid \<noteq> []"
  shows "List.find (\<lambda>m. ms_group_id m = gid)
           (p_memberships (merge_person t pd src (Some gid) mf p)) =
           Some (m\<lparr>ms_updated_at := t, ms_fields := dict_update (ms_fields m) (fields_or mf [])\<rparr>)"
proof -
  from assms have "\<exists>m \<in> set (p_memberships p). ms_group_id m = gid"
    by (auto dest: find_Some_mem)
  with find_touch [OF assms(1)] assms(2) show ?thesis
    by (simp add: merge_person_def Let_def)
qed

lemma add_person_to_group_found:
  assumes "List.find (\<lambda>p. p_id p = pid) (people s) = Some p"
  shows "List.find (\<lambda>p. p_id p = pid) (people (fst (add_person_to_group saved now s pid gid flds))) =
           Some (add_membership now gid flds p)"
proof -
  from assms have "p \<in> set (people s)" "p_id p = pid"
    by (auto dest: find_Some_mem)
  with find_update_first [OF assms, of "add_membership now gid flds"] show ?thesis
    by (auto simp add: add_person_to_group_def add_membership_facts)
qed

lemma dict_update_Cons: "dict_update d ((k, v) # e) = dict_update (AList.update k v d) e"
  by (simp add: dict_update_def)

lemma map_of_dict_update: "map_of (dict_update d e) = map_of d ++ map_of (rev e)"
proof (induction e arbitrary: d)
  case Nil
  then show ?case by (simp add: dict_update_def)
next
  case (Cons a e)
  obtain k v where a: "a = (k, v)" by (cases a)
  have "map_of (dict_update d (a # e)) = (map_of d)(k \<mapsto> v) ++ map_of (rev e)"
    by (auto simp add: a dict_update_Cons Cons.IH update_conv' fun_eq_iff map_add_def
        split: option.splits)
  also have "\<dots> = map_of d ++ map_of (rev (a # e))"
    by (simp add: a map_add_upd_left fun_eq_iff map_add_def split: option.splits)
  finally show ?case .
qed

lemma map_of_fields_or:
  "map_of (dict_update d (fields_or flds [])) =
     map_of d ++ (case flds of None \<Rightarrow> Map.empty | Some e \<Rightarrow> map_of (rev e))"
  by (simp add: map_of_dict_update fields_or_def split: option.splits)

lemma fields_or_None: "dict_update d (fields_or None []) = d"
  by (simp add: fields_or_def dict_update_def)

text \<open>
  C6, amended. Membership uniqueness is an invariant: if no person of the document has
  two memberships of the same group, the same holds after \<open>add_person_to_group\<close>,
  \<open>upsert_person\<close>, \<open>remove_person_from_group\<close>, \<open>update_membership_fields\<close> and
  \<open>delete_group\<close>. A second \<open>add_person_to_group\<close> with the same person and group,
  on the document the first call produced, leaves every person's list of group ids as
  the first call left it; so it does when it loads the file that the first call wrote
  for an existing person. On any document, \<open>add_person_to_group\<close> for a person that has
  a membership \<open>m\<close> of the group appends nothing: the person's group ids stay the same,
  and \<open>m\<close> gets the new \<open>updated_at\<close> and the given fields merged into its own (a
  key of the given fields reads the given value, the last one if the key is given more
  than once; every other key reads as before; without fields, the fields stay as they
  are). \<open>upsert_person\<close> with a non-empty group id that the matched person already
  belongs to does the same to that person's membership.
\<close>

theorem C6_membership_uniqueness:
  assumes "memberships_unique s"
  shows "memberships_unique (fst (add_person_to_group saved now s pid gid flds)) \<and>
         memberships_unique (fst (upsert_person B now nu iu s pd src g mf)) \<and>
         memberships_unique (fst (remove_person_from_group saved s pid gid)) \<and>
         memberships_unique (fst (update_membership_fields saved now s pid gid flds')) \<and>
         memberships_unique (fst (delete_group saved s gid)) \<and>
         map group_ids (people (fst (add_person_to_group saved_b now_b
              (fst (add_person_to_group saved now s pid gid flds)) pid gid flds_b))) =
           map group_ids (people (fst (add_person_to_group saved now s pid gid flds))) \<and>
         (\<forall>p file1.
            List.find (\<lambda>p. p_id p = pid) (people s) = Some p \<and>
            write_org_store outcome (fst (add_person_to_group saved now s pid gid flds)) file =
              (file1, True) \<longrightarrow>
            map group_ids (people (fst (add_person_to_group saved_b now_b
                 (load_org_store B t U file1) pid gid flds_b))) =
              map group_ids (people (fst (add_person_to_group saved now s pid gid flds)))) \<and>
         (\<forall>p m. List.find (\<lambda>p. p_id p = pid) (people s) = Some p \<and>
                List.find (\<lambda>m. ms_group_id m = gid) (p_memberships p) = Some m \<longrightarrow>
                (\<exists>p' fs. List.find (\<lambda>p. p_id p = pid)
                         (people (fst (add_person_to_group saved now s pid gid flds))) = Some p' \<and>
                      group_ids p' = group_ids p \<and>
                      List.find (\<lambda>m. ms_group_id m = gid) (p_memberships p') =
                        Some (m\<lparr>ms_updated_at := now, ms_fields := fs\<rparr>) \<and>
                      map_of fs =
                        map_of (ms_fields m) ++
                          (case flds of None \<Rightarrow> Map.empty | Some e \<Rightarrow> map_of (rev e)) \<and>
                      (flds = None \<longrightarrow> fs = ms_fields m))) \<and>
         (\<forall>ep m. profile_dedup_key B pd \<noteq> [] \<and> gid \<noteq> [] \<and>
                 List.find (\<lambda>p. key (p_dedup p) = profile_dedup_key B pd) (people s) = Some ep \<and>
                 List.find (\<lambda>m. ms_group_id m = gid) (p_memberships ep) = Some m \<longrightarrow>
                 map group_ids (people (fst (upsert_person B now nu iu s pd src (Some gid) mf))) =
                   map group_ids (people s) \<and>
                 (\<exists>ep' fs. List.find (\<lambda>p. key (p_dedup p) = profile_dedup_key B pd)
                          (people (fst (upsert_person B now nu iu s pd src (Some gid) mf))) = Some ep' \<and>
                        List.find (\<lambda>m. ms_group_id m = gid) (p_memberships ep') =
                          Some (m\<lparr>ms_updated_at := now, ms_fields := fs\<rparr>) \<and>
                        map_of fs =
                          map_of (ms_fields m) ++
                            (case mf of None \<Rightarrow> Map.empty | Some e \<Rightarrow> map_of (rev e)) \<and>
                        (mf = None \<longrightarrow> fs = ms_fields m)))"
proof -
  have touch: "\<exists>p' fs. List.find (\<lambda>p. p_id p = pid)
                   (people (fst (add_person_to_group saved now s pid gid flds))) = Some p' \<and>
                 group_ids p' = group_ids p \<and>
                 List.find (\<lambda>m. ms_group_id m = gid) (p_memberships p') =
                   Some (m\<lparr>ms_updated_at := now, ms_fields := fs\<rparr>) \<and>
                 map_of fs =
                   map_of (ms_fields m) ++
                     (case flds of None \<Rightarrow> Map.empty | Some e \<Rightarrow> map_of (rev e)) \<and>
                 (flds = None \<longrightarrow> fs = ms_fields m)"
    if "List.find (\<lambda>p. p_id p = pid) (people s) = Some p"
      and "List.find (\<lambda>m. ms_group_id m = gid) (p_memberships p) = Some m" for p m
  proof -
    from that(2) have "gid \<in> set (group_ids p)"
      by (auto dest: find_Some_mem simp: group_ids_def)
    then have "List.find (\<lambda>p. p_id p = pid)
          (people (fst (add_person_to_group saved now s pid gid flds))) =
          Some (add_membership now gid flds p) \<and>
        group_ids (add_membership now gid flds p) = group_ids p \<and>
        List.find (\<lambda>m. ms_group_id m = gid) (p_memberships (add_membership now gid flds p)) =
          Some (m\<lparr>ms_updated_at := now,
                  ms_fields := dict_update (ms_fields m) (fields_or flds [])\<rparr>)"
      using add_person_to_group_found [OF that(1)] add_membership_touches [OF that(2)]
      by (simp add: add_membership_facts)
    then show ?thesis
      using map_of_fields_or [of "ms_fields m" flds] fields_or_None [of "ms_fields m"]
      by blast
  qed
  have ups: "map group_ids (people (fst (upsert_person B now nu iu s pd src (Some gid) mf))) =
               map group_ids (people s) \<and>
             (\<exists>ep' fs. List.find (\<lambda>p. key (p_dedup p) = profile_dedup_key B pd)
                      (people (fst (upsert_person B now nu iu s pd src (Some gid) mf))) = Some ep' \<and>
                    List.find (\<lambda>m. ms_group_id m = gid) (p_memberships ep') =
                      Some (m\<lparr>ms_updated_at := now, ms_fields := fs\<rparr>) \<and>
                    map_of fs =
                      map_of (ms_fields m) ++
                        (case mf of None \<Rightarrow> Map.empty | Some e \<Rightarrow> map_of (rev e)) \<and>
                    (mf = None \<longrightarrow> fs = ms_fields m))"
    if k: "profile_dedup_key B pd \<noteq> []" and g: "gid \<noteq> []"
      and f: "List.find (\<lambda>p. key (p_dedup p) = profile_dedup_key B pd) (people s) = Some ep"
      and m: "List.find (\<lambda>m. ms_group_id m = gid) (p_memberships ep) = Some m" for ep m
  proof -
    from m have "gid \<in> set (group_ids ep)"
      by (auto dest: find_Some_mem simp: group_ids_def)
    then have "map group_ids (people (fst (upsert_person B now nu iu s pd src (Some gid) mf))) =
        map group_ids (people s)"
      using k f by (rule upsert_existing_membership [rotated 2])
    moreover have "key (p_dedup ep) = profile_dedup_key B pd"
      using f by (auto dest: find_Some_iff [THEN iffD1])
    then have "List.find (\<lambda>p. key (p_dedup p) = profile_dedup_key B pd)
        (people (fst (upsert_person B now nu iu s pd src (Some gid) mf))) =
        Some (merge_person now pd src (Some gid) mf ep)"
      using find_update_first [OF f, of "merge_person now pd src (Some gid) mf"]
      by (simp add: upsert_person_matched [OF k f])
    ultimately show ?thesis
      using merge_person_touches [OF m g, of now pd src mf]
        map_of_fields_or [of "ms_fields m" mf] fields_or_None [of "ms_fields m"]
      by blast
  qed
  have reload: "map group_ids (people (fst (add_person_to_group saved_b now_b
                 (load_org_store B t U file1) pid gid flds_b))) =
              map group_ids (people (fst (add_person_to_group saved now s pid gid flds)))"
    if "List.find (\<lambda>p. p_id p = pid) (people s) = Some p"
      and "write_org_store outcome (fst (add_person_to_group saved now s pid gid flds)) file =
             (file1, True)" for p file1
  proof -
    from that(1) have "\<exists>p \<in> set (people s). p_id p = pid"
      by (auto dest: find_Some_mem)
    then have "schema_version (fst (add_person_to_group saved now s pid gid flds)) =
        Some SCHEMA_VERSION"
      by (simp add: add_person_to_group_def save_org_store_def)
    with that(2) have "load_org_store B t U file1 = fst (add_person_to_group saved now s pid gid flds)"
      by (rule load_written)
    then show ?thesis
      by (simp add: add_person_to_group_twice)
  qed
  show ?thesis
    using assms touch ups reload
    by (simp add: add_unique upsert_person_unique remove_unique update_fields_unique
        delete_group_unique add_person_to_group_twice del: split_paired_All split_paired_Ex)
qed


section \<open>Operations on an absent id\<close>

lemma update_event_loop_absent:
  "person_id \<notin> p_id ` set ps \<Longrightarrow> update_event_loop now person_id event_id patch ps = None"
  by (induction ps) auto

lemma delete_event_loop_absent:
  "person_id \<notin> p_id ` set ps \<Longrightarrow> delete_event_loop now person_id event_id ps = None"
  by (induction ps) auto

lemma update_first_fixed:
  "List.find P xs = Some x \<Longrightarrow> f x = x \<Longrightarrow> update_first P f xs = xs"
  by (induction xs) (auto split: if_splits)

lemma remove_person_from_group_found:
  assumes "List.find (\<lambda>p. p_id p = pid) (people s) = Some p"
  shows "remove_person_from_group saved s pid gid =
           (save_org_store (s\<lparr>people :=
              update_first (\<lambda>p. p_id p = pid)
                (\<lambda>person. person\<lparr>p_memberships :=
                   filter (\<lambda>m. ms_group_id m \<noteq> gid) (p_memberships person)\<rparr>)
                (people s)\<rparr>), saved)"
  using assms by (auto simp add: remove_person_from_group_def dest: find_Some_mem)

text \<open>
  C8, amended. No operation raises: each is a total function of the document. What an
  absent id returns depends on the operation.

  \<^item> \<open>rename_group\<close> returns false and changes nothing when no group has the id.
  \<^item> \<open>add_person_to_group\<close>, \<open>remove_person_from_group\<close>,
    \<open>update_membership_fields\<close>, \<open>set_person_base_score\<close>, \<open>add_performance_event\<close>,
    \<open>update_performance_event\<close> and \<open>delete_performance_event\<close> return false and
    change nothing when no person has the person id.
  \<^item> \<open>delete_group\<close> and \<open>delete_person\<close> do not look the id up: they filter and
    save, so on an absent id they remove no group and no person and return what
    \<open>save_org_store\<close> returns.
  \<^item> \<open>add_person_to_group\<close> and \<open>remove_person_from_group\<close> do not look the group id
    up. When a person has the person id, they return what \<open>save_org_store\<close> returns,
    whether or not a group has the group id: \<open>add_person_to_group\<close> leaves the person
    with a membership of that id (appended when there was none) and the list of groups
    as it was; \<open>remove_person_from_group\<close> leaves the people as they were when the
    person has no membership of it.
  \<^item> \<open>update_membership_fields\<close> returns false and changes nothing when no person
    with the person id has a membership of the group id.
\<close>

theorem C8_not_found:
  "(gid \<notin> g_id ` set (groups s) \<longrightarrow>
      rename_group saved now s gid new_name = (s, False) \<and>
      snd (delete_group saved s gid) = saved \<and>
      groups (fst (delete_group saved s gid)) = groups s) \<and>
   (pid \<notin> p_id ` set (people s) \<longrightarrow>
      add_person_to_group saved now s pid g flds = (s, False) \<and>
      remove_person_from_group saved s pid g = (s, False) \<and>
      update_membership_fields saved now s pid g flds' = (s, False) \<and>
      set_person_base_score saved now s pid score = (s, False) \<and>
      add_performance_event saved now s pid ev = (s, False) \<and>
      update_performance_event saved now s pid eid patch = (s, False) \<and>
      delete_performance_event saved now s pid eid = (s, False) \<and>
      delete_person saved s pid = (save_org_store s, saved)) \<and>
   (\<forall>p. List.find (\<lambda>p. p_id p = pid) (people s) = Some p \<longrightarrow>
      snd (add_person_to_group saved now s pid g flds) = saved \<and>
      (\<exists>p'. List.find (\<lambda>p. p_id p = pid)
               (people (fst (add_person_to_group saved now s pid g flds))) = Some p' \<and>
            group_ids p' = (if g \<in> set (group_ids p) then group_ids p else group_ids p @ [g])) \<and>
      groups (fst (add_person_to_group saved now s pid g flds)) = groups s \<and>
      snd (remove_person_from_group saved s pid g) = saved \<and>
      (g \<notin> set (group_ids p) \<longrightarrow>
         people (fst (remove_person_from_group saved s pid g)) = people s)) \<and>
   ((\<forall>p \<in> set (people s). p_id p = pid \<longrightarrow> g \<notin> set (group_ids p)) \<longrightarrow>
      update_membership_fields saved now s pid g flds' = (s, False))"
proof (intro conjI impI allI)
  assume g: "gid \<notin> g_id ` set (groups s)"
  then show "rename_group saved now s gid new_name = (s, False)"
    by (auto simp: rename_group_def)
  show "snd (delete_group saved s gid) = saved"
    by (simp add: delete_group_def)
  have "filter (\<lambda>g. g_id g \<noteq> gid) (groups s) = groups s"
    using g by (auto simp: filter_id_conv)
  then show "groups (fst (delete_group saved s gid)) = groups s"
    by (simp add: delete_group_def save_org_store_def)
next
  assume p: "pid \<notin> p_id ` set (people s)"
  then show "add_person_to_group saved now s pid g flds = (s, False)"
    by (auto simp: add_person_to_group_def)
  from p show "remove_person_from_group saved s pid g = (s, False)"
    by (auto simp: remove_person_from_group_def)
  from p show "update_membership_fields saved now s pid g flds' = (s, False)"
    by (auto simp: update_membership_fields_def Let_def)
  from p show "set_person_base_score saved now s pid score = (s, False)"
    by (auto simp: set_person_base_score_def)
  from p show "add_performance_event saved now s pid ev = (s, False)"
    by (auto simp: add_performance_event_def)
  from p show "update_performance_event saved now s pid eid patch = (s, False)"
    by (simp add: update_performance_event_def update_event_loop_absent)
  from p show "delete_performance_event saved now s pid eid = (s, False)"
    by (simp add: delete_performance_event_def delete_event_loop_absent)
  have "filter (\<lambda>q. p_id q \<noteq> pid) (people s) = people s"
    using p by (auto simp: filter_id_conv)
  then show "delete_person saved s pid = (save_org_store s, saved)"
    by (simp add: delete_person_def)
next
  fix p
  assume f: "List.find (\<lambda>p. p_id p = pid) (people s) = Some p"
  then have ex: "\<exists>p \<in> set (people s). p_id p = pid"
    by (auto dest: find_Some_mem)
  from ex show "snd (add_person_to_group saved now s pid g flds) = saved"
    by (simp add: add_person_to_group_def)
  show "\<exists>p'. List.find (\<lambda>p. p_id p = pid)
               (people (fst (add_person_to_group saved now s pid g flds))) = Some p' \<and>
            group_ids p' = (if g \<in> set (group_ids p) then group_ids p else group_ids p @ [g])"
    using add_person_to_group_found [OF f] by (simp add: add_membership_ids)
  from ex show "groups (fst (add_person_to_group saved now s pid g flds)) = groups s"
    by (simp add: add_person_to_group_def)
  show "snd (remove_person_from_group saved s pid g) = saved"
    by (simp add: remove_person_from_group_found [OF f])
  assume n: "g \<notin> set (group_ids p)"
  then have "filter (\<lambda>m. ms_group_id m \<noteq> g) (p_memberships p) = p_memberships p"
    by (auto simp add: group_ids_def filter_id_conv)
  then have "p\<lparr>p_memberships := filter (\<lambda>m. ms_group_id m \<noteq> g) (p_memberships p)\<rparr> = p"
    by (cases p) simp
  with f have "update_first (\<lambda>p. p_id p = pid)
      (\<lambda>person. person\<lparr>p_memberships :=
         filter (\<lambda>m. ms_group_id m \<noteq> g) (p_memberships person)\<rparr>) (people s) = people s"
    by (rule update_first_fixed)
  then show "people (fst (remove_person_from_group saved s pid g)) = people s"
    by (simp add: remove_person_from_group_found [OF f])
next
  assume "\<forall>p \<in> set (people s). p_id p = pid \<longrightarrow> g \<notin> set (group_ids p)"
  then show "update_membership_fields saved now s pid g flds' = (s, False)"
    by (auto simp add: update_membership_fields_def Let_def group_ids_def)
qed

text \<open>
  C8, as stated: every operation addressed by a person or group id returns false when no
  entity has the id. On the example document, with writes that succeed,
  \<open>delete_person\<close> and \<open>delete_group\<close> return true for ids that it does not hold;
  and for the person \<open>p1\<close> and the id \<open>G9\<close>, which no group has,
  \<open>add_person_to_group\<close> returns true and gives \<open>p1\<close> a membership of \<open>G9\<close>, and
  \<open>remove_person_from_group\<close> returns true.
\<close>

theorem C8_returns_true_counterexample:
  "u ''nobody'' \<notin> p_id ` set (people demo_store) \<and>
   snd (delete_person True demo_store (u ''nobody'')) = True \<and>
   u ''G9'' \<notin> g_id ` set (groups demo_store) \<and>
   snd (delete_group True demo_store (u ''G9'')) = True \<and>
   snd (add_person_to_group True (u ''t1'') demo_store (u ''p1'') (u ''G9'') None) = True \<and>
   map group_ids (people (fst (add_person_to_group True (u ''t1'') demo_store (u ''p1'') (u ''G9'') None))) =
     [[u ''G1'', u ''G2'', u ''G9''], [u ''G1'']] \<and>
   snd (remove_person_from_group True demo_store (u ''p1'') (u ''G9'')) = True"
  by (simp add: delete_person_def delete_group_def add_person_to_group_def add_membership_def
      remove_person_from_group_def group_ids_def demo_store_def demo_person_def)

theorem C8_not_found_witness:
  "u ''G9'' \<notin> g_id ` set (groups demo_store) \<and>
   u ''nobody'' \<notin> p_id ` set (people demo_store) \<and>
   rename_group True (u ''t1'') demo_store (u ''G9'') (u ''New'') = (demo_store, False) \<and>
   add_person_to_group True (u ''t1'') demo_store (u ''nobody'') (u ''G1'') None = (demo_store, False) \<and>
   delete_performance_event True (u ''t1'') demo_store (u ''nobody'') (u ''e_1'') = (demo_store, False) \<and>
   delete_person True demo_store (u ''nobody'') = (demo_store, True) \<and>
   List.find (\<lambda>p. p_id p = u ''p2'') (people demo_store) = Some (people demo_store ! 1) \<and>
   snd (add_person_to_group True (u ''t1'') demo_store (u ''p2'') (u ''G9'') None) = True \<and>
   snd (remove_person_from_group True demo_store (u ''p2'') (u ''G9'')) = True \<and>
   people (fst (remove_person_from_group True demo_store (u ''p2'') (u ''G9''))) = people demo_store \<and>
   update_membership_fields True (u ''t1'') demo_store (u ''p2'') (u ''G9'') [] = (demo_store, False)"
proof -
  have g: "u ''G9'' \<notin> g_id ` set (groups demo_store)"
    and p: "u ''nobody'' \<notin> p_id ` set (people demo_store)"
    by (simp_all add: demo_store_def demo_person_def)
  have v: "save_org_store demo_store = demo_store"
    by (simp add: save_org_store_def demo_store_def SCHEMA_VERSION_def)
  have f: "List.find (\<lambda>p. p_id p = u ''p2'') (people demo_store) = Some (people demo_store ! 1)"
    by (simp add: demo_store_def demo_person_def)
  have n: "u ''G9'' \<notin> set (group_ids (people demo_store ! 1))"
    "\<forall>p \<in> set (people demo_store). p_id p = u ''p2'' \<longrightarrow> u ''G9'' \<notin> set (group_ids p)"
    by (simp_all add: demo_store_def demo_person_def group_ids_def)
  note a = C8_not_found [of "u ''G9''" demo_store True "u ''t1''" "u ''New''" "u ''nobody''"
      "u ''G1''" None]
  note b = C8_not_found [of "u ''G9''" demo_store True "u ''t1''" "u ''New''" "u ''p2''"
      "u ''G9''" None "[]"]
  show ?thesis
    using g p v f n a b by simp
qed

section \<open>The specification's scenario, run\<close>

lemma u_append [simp]: "u a @ u b = u (a @ b)"
  by (simp add: u_def)

lemma demo_keys:
  "profile_dedup_key B demo_profile = u ''phone:13812345678''"
  "profile_dedup_key B profile_b = u ''phone:13812345678''"
  using profile_dedup_key_phone [of B demo_profile "u ''13812345678''"]
    profile_dedup_key_phone [of B profile_b "u ''13812345678''"]
  by (simp_all add: extract_demo_profile extract_profile_b normalize_phone_demo)

lemma demo_find:
  "List.find (\<lambda>p. key (p_dedup p) = u ''phone:13812345678'') (people demo_store) = Some demo_person"
  by (simp add: demo_store_def demo_person_def)















lemma demo_blank_person:
  "List.find (\<lambda>p. key (p_dedup p) = u ''phone:13812345678'') (people demo_blank) =
     Some (demo_person\<lparr>p_memberships := p_memberships demo_person @
       [\<lparr>ms_group_id = [], ms_joined_at = u ''t1'', ms_updated_at = u ''t1'', ms_fields = []\<rparr>]\<rparr>)"
  "map group_ids (people demo_blank) = [[u ''G1'', u ''G2'', []], [u ''G1'']]"
  by (simp_all add: demo_blank_def add_person_to_group_def add_membership_def fields_or_def
      group_ids_def demo_store_def demo_person_def)

text \<open>
  C6, as stated: \<open>upsert_person\<close> with a group id the matched person already belongs
  to updates the existing membership. With the empty string as group id it does not (the
  guard \<open>if group_id:\<close> fails): in \<open>demo_blank\<close> the person \<open>p1\<close> has a membership
  of the group \<open>""\<close>, written at \<open>t1\<close>; an import of \<open>profile_b\<close> for that group at
  \<open>t2\<close>, with a field, matches \<open>p1\<close> and leaves every membership as it was.
\<close>

theorem C6_empty_group_id_counterexample:
  "memberships_unique demo_blank \<and>
   map group_ids (people demo_blank) = [[u ''G1'', u ''G2'', []], [u ''G1'']] \<and>
   snd demo_blank_merge = (u ''p1'', False) \<and>
   map p_memberships (people (fst demo_blank_merge)) = map p_memberships (people demo_blank) \<and>
   List.find (\<lambda>m. ms_group_id m = []) (p_memberships (hd (people (fst demo_blank_merge)))) =
     Some \<lparr>ms_group_id = [], ms_joined_at = u ''t1'', ms_updated_at = u ''t1'', ms_fields = []\<rparr>"
proof -
  let ?P = "\<lambda>p. key (p_dedup p) = u ''phone:13812345678''"
  let ?f = "merge_person (u ''t2'') profile_b (u ''text_analysis'') (Some [])
      (Some [(u ''role'', JStr (u ''dev''))])"
  have m: "demo_blank_merge =
      (save_org_store (demo_blank\<lparr>people := update_first ?P ?f (people demo_blank)\<rparr>),
       (u ''p1'', False))"
    using upsert_person_matched [of demo_builtins profile_b demo_blank, OF _ demo_blank_person(1)[folded demo_keys(2)[of demo_builtins]]]
    by (simp add: demo_blank_merge_def demo_keys) (simp add: demo_person_def)
  have same: "p_memberships (?f p) = p_memberships p" for p :: "int person"
    by (simp add: merge_person_def Let_def)
  have ms: "map p_memberships (people (fst demo_blank_merge)) = map p_memberships (people demo_blank)"
    unfolding m by (simp add: map_update_first same)
  have u: "memberships_unique demo_blank"
    using demo_blank_person(2) by (auto simp add: memberships_unique_def group_ids_def)
  have "p_memberships (hd (people (fst demo_blank_merge))) = p_memberships (hd (people demo_blank))"
    using ms demo_blank_person(2) by (cases "people (fst demo_blank_merge)"; cases "people demo_blank") auto
  moreover have "List.find (\<lambda>m. ms_group_id m = []) (p_memberships (hd (people demo_blank))) =
     Some \<lparr>ms_group_id = [], ms_joined_at = u ''t1'', ms_updated_at = u ''t1'', ms_fields = []\<rparr>"
    by (simp add: demo_blank_def add_person_to_group_def add_membership_def fields_or_def
      demo_store_def demo_person_def)
  ultimately show ?thesis
    using u ms demo_blank_person(2) by (simp add: m)
qed

theorem C6_membership_uniqueness_witness:
  "memberships_unique demo_store \<and>
   memberships_unique (fst (add_person_to_group True (u ''t1'') demo_store (u ''p2'') (u ''G2'') None)) \<and>
   map group_ids (people (fst (add_person_to_group True (u ''t2'')
       (fst (add_person_to_group True (u ''t1'') demo_store (u ''p2'') (u ''G2'') None))
       (u ''p2'') (u ''G2'') None))) = [[u ''G1'', u ''G2''], [u ''G1'', u ''G2'']] \<and>
   memberships_unique (fst demo_merge) \<and>
   map group_ids (people (fst demo_merge)) = [[u ''G1'', u ''G2''], [u ''G1'']] \<and>
   (\<exists>p' fs. List.find (\<lambda>p. p_id p = u ''p1'')
        (people (fst (add_person_to_group True (u ''t1'') demo_store (u ''p1'') (u ''G1'')
           (Some [(u ''role'', JStr (u ''dev'')), (u ''seat'', JInt 4)])))) = Some p' \<and>
      group_ids p' = [u ''G1'', u ''G2''] \<and>
      List.find (\<lambda>m. ms_group_id m = u ''G1'') (p_memberships p') =
        Some \<lparr>ms_group_id = u ''G1'', ms_joined_at = u ''t0'', ms_updated_at = u ''t1'',
              ms_fields = fs\<rparr> \<and>
      map_of fs (u ''role'') = Some (JStr (u ''dev'')) \<and> map_of fs (u ''seat'') = Some (JInt 4)) \<and>
   (\<exists>ep'. List.find (\<lambda>p. key (p_dedup p) = u ''phone:13812345678'') (people (fst demo_merge)) =
        Some ep' \<and>
      List.find (\<lambda>m. ms_group_id m = u ''G1'') (p_memberships ep') =
        Some \<lparr>ms_group_id = u ''G1'', ms_joined_at = u ''t0'', ms_updated_at = u ''t2'',
              ms_fields = [(u ''role'', JStr (u ''lead''))]\<rparr>)"
proof -
  have h: "memberships_unique demo_store"
    by (simp add: memberships_unique_def group_ids_def demo_store_def demo_person_def)
  have ids: "map group_ids (people demo_store) = [[u ''G1'', u ''G2''], [u ''G1'']]"
    "group_ids demo_person = [u ''G1'', u ''G2'']"
    by (simp_all add: group_ids_def demo_store_def demo_person_def)
  have once: "map group_ids (people (fst (add_person_to_group True (u ''t1'') demo_store
      (u ''p2'') (u ''G2'') None))) = [[u ''G1'', u ''G2''], [u ''G1'', u ''G2'']]"
    by (simp add: add_person_to_group_def add_membership_def group_ids_def demo_store_def
        demo_person_def)
  have g: "List.find (\<lambda>m. ms_group_id m = u ''G1'') (p_memberships demo_person) =
      Some \<lparr>ms_group_id = u ''G1'', ms_joined_at = u ''t0'', ms_updated_at = u ''t0'',
            ms_fields = [(u ''role'', JStr (u ''lead''))]\<rparr>"
    by (simp add: demo_person_def)
  have fp: "List.find (\<lambda>p. p_id p = u ''p1'') (people demo_store) = Some demo_person"
    by (simp add: demo_store_def demo_person_def)
  have ne: "u ''G1'' \<noteq> []" by simp
  note C6 = C6_membership_uniqueness [OF h, where B = demo_builtins and pd = profile_b
      and pid = "u ''p2''" and gid = "u ''G2''" and flds = None and flds_b = None
      and saved = True and saved_b = True and now = "u ''t1''" and now_b = "u ''t2''"]
  note C6' = C6_membership_uniqueness [OF h, where B = demo_builtins and pd = profile_b
      and gid = "u ''G1''" and g = "Some (u ''G1'')" and now = "u ''t2''"
      and nu = "u ''11112222-cccc''" and iu = "u ''33334444-dddd''"
      and src = "u ''text_analysis''" and mf = None]
  note C6'' = C6_membership_uniqueness [OF h, where pid = "u ''p1''" and gid = "u ''G1''" and now = "u ''t1''"
      and saved = True and flds = "Some [(u ''role'', JStr (u ''dev'')), (u ''seat'', JInt 4)]"]
  note touch = C6'' [THEN conjunct2, THEN conjunct2, THEN conjunct2, THEN conjunct2,
      THEN conjunct2, THEN conjunct2, THEN conjunct2, THEN conjunct1, rule_format, OF conjI,
      OF fp g]
  note merged = C6' [THEN conjunct2, THEN conjunct2, THEN conjunct2, THEN conjunct2,
      THEN conjunct2, THEN conjunct2, THEN conjunct2, THEN conjunct2, rule_format,
      of demo_person "\<lparr>ms_group_id = u ''G1'', ms_joined_at = u ''t0'', ms_updated_at = u ''t0'',
            ms_fields = [(u ''role'', JStr (u ''lead''))]\<rparr>"]
  note inv = C6 [THEN conjunct1] C6 [THEN conjunct2, THEN conjunct2, THEN conjunct2,
      THEN conjunct2, THEN conjunct2, THEN conjunct1] C6' [THEN conjunct2, THEN conjunct1]
  from touch obtain p' fs where a:
    "List.find (\<lambda>p. p_id p = u ''p1'')
        (people (fst (add_person_to_group True (u ''t1'') demo_store (u ''p1'') (u ''G1'')
           (Some [(u ''role'', JStr (u ''dev'')), (u ''seat'', JInt 4)])))) = Some p'"
    "group_ids p' = group_ids demo_person"
    "List.find (\<lambda>m. ms_group_id m = u ''G1'') (p_memberships p') =
        Some \<lparr>ms_group_id = u ''G1'', ms_joined_at = u ''t0'', ms_updated_at = u ''t1'',
              ms_fields = fs\<rparr>"
    "map_of fs = map_of [(u ''role'', JStr (u ''lead''))] ++
       map_of (rev [(u ''role'', JStr (u ''dev'')), (u ''seat'', JInt 4)])"
    by auto
  from a(4) have "map_of fs (u ''role'') = Some (JStr (u ''dev''))"
    "map_of fs (u ''seat'') = Some (JInt 4)"
    by simp_all
  with a(1,2,3) ids(2) have first: "\<exists>p' fs. List.find (\<lambda>p. p_id p = u ''p1'')
        (people (fst (add_person_to_group True (u ''t1'') demo_store (u ''p1'') (u ''G1'')
           (Some [(u ''role'', JStr (u ''dev'')), (u ''seat'', JInt 4)])))) = Some p' \<and>
      group_ids p' = [u ''G1'', u ''G2''] \<and>
      List.find (\<lambda>m. ms_group_id m = u ''G1'') (p_memberships p') =
        Some \<lparr>ms_group_id = u ''G1'', ms_joined_at = u ''t0'', ms_updated_at = u ''t1'',
              ms_fields = fs\<rparr> \<and>
      map_of fs (u ''role'') = Some (JStr (u ''dev'')) \<and> map_of fs (u ''seat'') = Some (JInt 4)"
    by auto
  from merged demo_keys(2) [of demo_builtins] demo_find g ne
  have second: "\<exists>ep'. List.find (\<lambda>p. key (p_dedup p) = u ''phone:13812345678'') (people (fst demo_merge)) =
        Some ep' \<and>
      List.find (\<lambda>m. ms_group_id m = u ''G1'') (p_memberships ep') =
        Some \<lparr>ms_group_id = u ''G1'', ms_joined_at = u ''t0'', ms_updated_at = u ''t2'',
              ms_fields = [(u ''role'', JStr (u ''lead''))]\<rparr>"
    by (simp add: demo_merge_def del: split_paired_All split_paired_Ex)
  have rest: "memberships_unique demo_store \<and>
   memberships_unique (fst (add_person_to_group True (u ''t1'') demo_store (u ''p2'') (u ''G2'') None)) \<and>
   map group_ids (people (fst (add_person_to_group True (u ''t2'')
       (fst (add_person_to_group True (u ''t1'') demo_store (u ''p2'') (u ''G2'') None))
       (u ''p2'') (u ''G2'') None))) = [[u ''G1'', u ''G2''], [u ''G1'', u ''G2'']] \<and>
   memberships_unique (fst demo_merge) \<and>
   map group_ids (people (fst demo_merge)) = [[u ''G1'', u ''G2''], [u ''G1'']]"
    using h ids once inv merged demo_keys(2) [of demo_builtins] demo_find g ne
    by (simp add: demo_merge_def del: split_paired_All split_paired_Ex)
  from rest first second show ?thesis by blast
qed



section \<open>Migration from version 1\<close>

lemma join_group_ids:
  "group_ids (join_group now ms p) =
     (if ms_group_id ms \<in> set (group_ids p) then group_ids p else group_ids p @ [ms_group_id ms])"
  by (auto simp add: join_group_def group_ids_def intro: rev_image_eqI)

lemma join_group_facts:
  "key (p_dedup (join_group now ms p)) = key (p_dedup p)"
  "set (group_ids p) \<subseteq> set (group_ids (join_group now ms p))"
  "ms_group_id ms \<in> set (group_ids (join_group now ms p))"
  "distinct (group_ids p) \<Longrightarrow> distinct (group_ids (join_group now ms p))"
  by (auto simp add: join_group_ids) (simp add: join_group_def)

lemma migrate_member_cases:
  obtains (matched) ep where
      "member_key B m \<noteq> []"
      "List.find (\<lambda>p. key (p_dedup p) = member_key B m) (people (fst st)) = Some ep"
      "migrate_member_to_store B now U gid m st =
         ((fst st)\<lparr>people := update_first (\<lambda>p. key (p_dedup p) = member_key B m)
                                 (join_group now (legacy_membership now gid m)) (people (fst st))\<rparr>, snd st)"
  | (created) np where
      "member_key B m = [] \<or>
       List.find (\<lambda>p. key (p_dedup p) = member_key B m) (people (fst st)) = None"
      "key (p_dedup np) = member_key B m" "group_ids np = [gid]"
      "migrate_member_to_store B now U gid m st =
         ((fst st)\<lparr>people := people (fst st) @ [np]\<rparr>, Suc (snd st))"
proof (cases "member_key B m \<noteq> [] \<and>
    List.find (\<lambda>p. key (p_dedup p) = member_key B m) (people (fst st)) \<noteq> None")
  case True
  then obtain ep where
    "List.find (\<lambda>p. key (p_dedup p) = member_key B m) (people (fst st)) = Some ep" by auto
  with True show ?thesis
    by (intro matched [of ep])
      (auto simp add: migrate_member_to_store_def member_key_def profile_dedup_key_def
        split_def Let_def)
next
  case False
  then show ?thesis
    by (intro created)
      (auto simp add: migrate_member_to_store_def member_key_def profile_dedup_key_def
        split_def Let_def group_ids_def legacy_membership_def)
qed


lemma legacy_membership_gid [simp]: "ms_group_id (legacy_membership now gid m) = gid"
  by (simp add: legacy_membership_def)

lemma update_first_mem:
  "x \<in> set xs \<Longrightarrow> x \<in> set (update_first P f xs) \<or> f x \<in> set (update_first P f xs)"
  by (induction xs) auto

lemma update_first_found_mem:
  "List.find P xs = Some x \<Longrightarrow> f x \<in> set (update_first P f xs)"
  by (induction xs) (auto split: if_splits)

lemma keys_of_update_first:
  "(\<And>x. key (p_dedup (f x)) = key (p_dedup x)) \<Longrightarrow> keys_of (update_first P f ps) = keys_of ps"
  by (simp add: keys_of_def map_update_first)

lemma migrate_member_groups [simp]:
  "groups (fst (migrate_member_to_store B now U gid m st)) = groups (fst st)"
  by (cases rule: migrate_member_cases [of B m st now U gid]) simp_all

lemma migrate_member_ok:
  assumes "people_ok (people (fst st))"
  shows "people_ok (people (fst (migrate_member_to_store B now U gid m st)))"
proof (cases rule: migrate_member_cases [of B m st now U gid])
  case (matched ep)
  have "\<forall>p \<in> set (update_first (\<lambda>p. key (p_dedup p) = member_key B m)
                      (join_group now (legacy_membership now gid m)) (people (fst st))).
          distinct (group_ids p)"
    using assms by (intro all_update_first) (simp_all add: people_ok_def join_group_facts)
  with assms show ?thesis
    by (simp add: matched(3) people_ok_def keys_of_update_first join_group_facts)
next
  case (created np)
  from created(1) have "member_key B m = [] \<or> member_key B m \<notin> set (keys_of (people (fst st)))"
    by (auto simp add: find_None_iff keys_of_def)
  with assms show ?thesis
    by (auto simp add: created(2,3,4) people_ok_def keys_of_def)
qed

lemma migrate_member_linked:
  assumes "member_key B m \<noteq> []"
  shows "linked (people (fst (migrate_member_to_store B now U gid m st))) (member_key B m) gid"
proof (cases rule: migrate_member_cases [of B m st now U gid])
  case (matched ep)
  from matched(2) have "key (p_dedup ep) = member_key B m"
    by (auto dest: find_Some_iff [THEN iffD1])
  moreover have "join_group now (legacy_membership now gid m) ep \<in>
      set (update_first (\<lambda>p. key (p_dedup p) = member_key B m)
             (join_group now (legacy_membership now gid m)) (people (fst st)))"
    using matched(2) by (rule update_first_found_mem)
  ultimately show ?thesis
    unfolding linked_def matched(3)
    using join_group_facts(1,3) [where now = now and ms = "legacy_membership now gid m" and p = ep]
    by (auto intro!: bexI [where x = "join_group now (legacy_membership now gid m) ep"])
next
  case (created np)
  then show ?thesis
    by (auto simp add: linked_def)
qed

lemma migrate_member_mono:
  assumes "linked (people (fst st)) k g"
  shows "linked (people (fst (migrate_member_to_store B now U gid m st))) k g"
proof -
  from assms obtain p where p: "p \<in> set (people (fst st))" "key (p_dedup p) = k"
    "g \<in> set (group_ids p)"
    by (auto simp add: linked_def)
  show ?thesis
  proof (cases rule: migrate_member_cases [of B m st now U gid])
    case (matched ep)
    let ?f = "join_group now (legacy_membership now gid m)"
    let ?ps = "update_first (\<lambda>p. key (p_dedup p) = member_key B m) ?f (people (fst st))"
    from update_first_mem [OF p(1)] have "p \<in> set ?ps \<or> ?f p \<in> set ?ps" .
    moreover have "key (p_dedup (?f p)) = k" "g \<in> set (group_ids (?f p))"
      using p join_group_facts(1,2) [where now = now and ms = "legacy_membership now gid m" and p = p]
      by auto
    ultimately show ?thesis
      unfolding linked_def matched(3) using p by auto
  next
    case (created np)
    with p show ?thesis by (auto simp add: linked_def)
  qed
qed


lemma fold_members_ok:
  "people_ok (people (fst st)) \<Longrightarrow>
   people_ok (people (fst (fold (migrate_member_to_store B now U gid) ms st)))"
  by (induction ms arbitrary: st) (simp_all add: migrate_member_ok)

lemma fold_members_groups [simp]:
  "groups (fst (fold (migrate_member_to_store B now U gid) ms st)) = groups (fst st)"
  by (induction ms arbitrary: st) simp_all

lemma fold_members_mono:
  "linked (people (fst st)) k g \<Longrightarrow>
   linked (people (fst (fold (migrate_member_to_store B now U gid) ms st))) k g"
  by (induction ms arbitrary: st) (simp_all add: migrate_member_mono)

lemma fold_members_linked:
  "m \<in> set ms \<Longrightarrow> member_key B m \<noteq> [] \<Longrightarrow>
   linked (people (fst (fold (migrate_member_to_store B now U gid) ms st))) (member_key B m) gid"
proof (induction ms arbitrary: st)
  case Nil
  then show ?case by simp
next
  case (Cons a ms)
  show ?case
  proof (cases "m = a")
    case True
    with Cons.prems show ?thesis
      by (simp add: fold_members_mono migrate_member_linked)
  next
    case False
    with Cons show ?thesis by simp
  qed
qed

lemma migrate_team_ok:
  "people_ok (people (fst st)) \<Longrightarrow> people_ok (people (fst (migrate_team B now U t st)))"
  by (simp add: migrate_team_def Let_def fold_members_ok)

lemma migrate_team_groups:
  "map g_id (groups (fst (migrate_team B now U t st))) =
   map g_id (groups (fst st)) @ [team_gid U (snd st) t]"
  by (simp add: migrate_team_def Let_def team_gid_def)

lemma migrate_team_mono:
  "linked (people (fst st)) k g \<Longrightarrow> linked (people (fst (migrate_team B now U t st))) k g"
  by (simp add: migrate_team_def Let_def fold_members_mono)

lemma migrate_team_linked:
  "m \<in> set (get_or (l_members t) []) \<Longrightarrow> member_key B m \<noteq> [] \<Longrightarrow>
   linked (people (fst (migrate_team B now U t st))) (member_key B m) (team_gid U (snd st) t)"
  by (simp add: migrate_team_def Let_def fold_members_linked team_gid_def)

lemma fold_teams_ok:
  "people_ok (people (fst st)) \<Longrightarrow> people_ok (people (fst (fold (migrate_team B now U) ts st)))"
  by (induction ts arbitrary: st) (simp_all add: migrate_team_ok)

lemma fold_teams_mono:
  "linked (people (fst st)) k g \<Longrightarrow> linked (people (fst (fold (migrate_team B now U) ts st))) k g"
  by (induction ts arbitrary: st) (simp_all add: migrate_team_mono)

lemma fold_teams_linked:
  "\<exists>gs. length gs = length ts \<and>
        map g_id (groups (fst (fold (migrate_team B now U) ts st))) = map g_id (groups (fst st)) @ gs \<and>
        (\<forall>i < length ts.
           (\<forall>g. l_id (ts ! i) = Some g \<longrightarrow> gs ! i = g) \<and>
           (\<forall>m \<in> set (get_or (l_members (ts ! i)) []). member_key B m \<noteq> [] \<longrightarrow>
              linked (people (fst (fold (migrate_team B now U) ts st))) (member_key B m) (gs ! i)))"
proof (induction ts arbitrary: st)
  case Nil
  then show ?case by simp
next
  case (Cons t ts)
  let ?st1 = "migrate_team B now U t st"
  let ?r = "fold (migrate_team B now U) ts ?st1"
  from Cons.IH [of ?st1] obtain gs where gs: "length gs = length ts"
    "map g_id (groups (fst ?r)) = map g_id (groups (fst ?st1)) @ gs"
    "\<forall>i < length ts.
       (\<forall>g. l_id (ts ! i) = Some g \<longrightarrow> gs ! i = g) \<and>
       (\<forall>m \<in> set (get_or (l_members (ts ! i)) []). member_key B m \<noteq> [] \<longrightarrow>
          linked (people (fst ?r)) (member_key B m) (gs ! i))"
    by blast
  let ?g = "team_gid U (snd st) t"
  have head: "(\<forall>g. l_id t = Some g \<longrightarrow> ?g = g) \<and>
     (\<forall>m \<in> set (get_or (l_members t) []). member_key B m \<noteq> [] \<longrightarrow>
        linked (people (fst ?r)) (member_key B m) ?g)"
    by (auto simp add: team_gid_def get_or_def intro!: fold_teams_mono migrate_team_linked [unfolded team_gid_def get_or_def])
  have "length (?g # gs) = length (t # ts)" using gs(1) by simp
  moreover have "map g_id (groups (fst (fold (migrate_team B now U) (t # ts) st))) =
      map g_id (groups (fst st)) @ (?g # gs)"
    using gs(2) by (simp add: migrate_team_groups)
  moreover have "\<forall>i < length (t # ts).
       (\<forall>g. l_id ((t # ts) ! i) = Some g \<longrightarrow> (?g # gs) ! i = g) \<and>
       (\<forall>m \<in> set (get_or (l_members ((t # ts) ! i)) []). member_key B m \<noteq> [] \<longrightarrow>
          linked (people (fst (fold (migrate_team B now U) (t # ts) st))) (member_key B m)
            ((?g # gs) ! i))"
  proof (intro allI impI)
    fix i assume "i < length (t # ts)"
    then show "(\<forall>g. l_id ((t # ts) ! i) = Some g \<longrightarrow> (?g # gs) ! i = g) \<and>
       (\<forall>m \<in> set (get_or (l_members ((t # ts) ! i)) []). member_key B m \<noteq> [] \<longrightarrow>
          linked (people (fst (fold (migrate_team B now U) (t # ts) st))) (member_key B m)
            ((?g # gs) ! i))"
      using head gs(3) by (cases i) simp_all
  qed
  ultimately show ?case by blast
qed


lemma unique_by_key:
  "distinct (keys_of ps) \<Longrightarrow> k \<noteq> [] \<Longrightarrow> p \<in> set ps \<Longrightarrow> key (p_dedup p) = k \<Longrightarrow>
   filter (\<lambda>q. key (p_dedup q) = k) ps = [p]"
proof (induction ps)
  case Nil
  then show ?case by simp
next
  case (Cons a ps)
  show ?case
  proof (cases "key (p_dedup a) = k")
    case True
    with Cons.prems have "k \<notin> set (keys_of ps)"
      by (simp add: keys_of_def)
    then have none: "\<forall>q \<in> set ps. key (p_dedup q) \<noteq> k"
      using Cons.prems(2) by (auto simp add: keys_of_def)
    then have "filter (\<lambda>q. key (p_dedup q) = k) ps = []"
      by (simp add: filter_empty_conv)
    moreover from none Cons.prems have "p = a" by auto
    ultimately show ?thesis using True by simp
  next
    case False
    with Cons.prems have "p \<in> set ps" "distinct (keys_of ps)"
      by (auto simp add: keys_of_def split: if_splits)
    with Cons.IH Cons.prems False show ?thesis by simp
  qed
qed

lemma ensure_performance_frame [simp]:
  "p_dedup (ensure_performance now p) = p_dedup p"
  "group_ids (ensure_performance now p) = group_ids p"
  by (simp_all add: ensure_performance_def group_ids_def split: option.splits)

lemma migrate_from_v1_teams:
  assumes "old_data = first_item # rest" "l_members first_item \<noteq> None"
  shows "migrate_from_v1 B now U old_data =
         fst (fold (migrate_team B now U) old_data (create_empty_org_store now, 0))"
  using assms by (auto simp add: migrate_from_v1_def)

text \<open>
  C9. Let \<open>load_org_store\<close> read a list whose first item has \<open>members\<close> (the teams
  shape of version 1), and let \<open>m1\<close>, a member of the team at position \<open>i\<close>, and
  \<open>m2\<close>, a member of the team at position \<open>j\<close>, have the same non-empty dedup key
  \<open>k\<close>, recomputed from their embedded profiles. The document returned has one group per
  team, in order, with the team's id where the team has one; exactly one person has the
  key \<open>k\<close>; that person carries a membership of the group of team \<open>i\<close> and one of the
  group of team \<open>j\<close>; and no person has two memberships of the same group.
\<close>

theorem C9_migration_merges:
  fixes s :: "('f::zero) store"
  assumes shape: "old_data = first_item # rest" "l_members first_item \<noteq> None"
    and ij: "i < length old_data" "j < length old_data"
    and m1: "m1 \<in> set (get_or (l_members (old_data ! i)) [])"
    and m2: "m2 \<in> set (get_or (l_members (old_data ! j)) [])"
    and k: "member_key B m1 = k" "member_key B m2 = k" "k \<noteq> []"
    and s: "load_org_store B now U (LegacyList old_data) = s"
  shows "length (groups s) = length old_data \<and>
         (\<forall>g. l_id (old_data ! i) = Some g \<longrightarrow> g_id (groups s ! i) = g) \<and>
         (\<forall>g. l_id (old_data ! j) = Some g \<longrightarrow> g_id (groups s ! j) = g) \<and>
         (\<exists>p. filter (\<lambda>q. key (p_dedup q) = k) (people s) = [p] \<and>
              g_id (groups s ! i) \<in> set (group_ids p) \<and>
              g_id (groups s ! j) \<in> set (group_ids p) \<and>
              distinct (group_ids p)) \<and>
         memberships_unique s"
proof -
  let ?st0 = "(create_empty_org_store now :: 'f store, 0 :: nat)"
  let ?r = "fold (migrate_team B now U) old_data ?st0"
  let ?ps = "people (fst ?r)"
  have ok0: "people_ok (people (fst ?st0))"
    by (simp add: people_ok_def keys_of_def create_empty_org_store_def)
  then have ok: "people_ok ?ps" by (rule fold_teams_ok)
  from fold_teams_linked [of old_data B now U ?st0] obtain gs where gs:
    "length gs = length old_data"
    "map g_id (groups (fst ?r)) = map g_id (groups (fst ?st0)) @ gs"
    "\<forall>i < length old_data.
       (\<forall>g. l_id (old_data ! i) = Some g \<longrightarrow> gs ! i = g) \<and>
       (\<forall>m \<in> set (get_or (l_members (old_data ! i)) []). member_key B m \<noteq> [] \<longrightarrow>
          linked ?ps (member_key B m) (gs ! i))"
    by blast
  from gs(2) have gmap: "map g_id (groups (fst ?r)) = gs"
    by (simp add: create_empty_org_store_def)
  have sp: "people s = map (ensure_performance now) ?ps" and sg: "groups s = groups (fst ?r)"
    using s shape
    by (auto simp add: load_org_store_def migrate_from_v1_teams migrate_v2_to_v3_def
        save_org_store_def)
  have len: "length (groups s) = length old_data"
    using gmap gs(1) sg by (metis length_map)
  have gi: "g_id (groups s ! i) = gs ! i" and gj: "g_id (groups s ! j) = gs ! j"
    using gmap gs(1) sg ij len by (metis nth_map)+
  from gs(3) ij(1) m1 k(1,3) have li: "linked ?ps k (gs ! i)"
    by blast
  from gs(3) ij(2) m2 k(2,3) have lj: "linked ?ps k (gs ! j)"
    by blast
  from li obtain p where p: "p \<in> set ?ps" "key (p_dedup p) = k" "gs ! i \<in> set (group_ids p)"
    by (auto simp add: linked_def)
  from lj obtain q where q: "q \<in> set ?ps" "key (p_dedup q) = k" "gs ! j \<in> set (group_ids q)"
    by (auto simp add: linked_def)
  from ok have dk: "distinct (keys_of ?ps)" and dm: "\<forall>p \<in> set ?ps. distinct (group_ids p)"
    by (simp_all add: people_ok_def)
  have fp: "filter (\<lambda>q. key (p_dedup q) = k) ?ps = [p]"
    using dk k(3) p(1,2) by (rule unique_by_key)
  moreover have "filter (\<lambda>q. key (p_dedup q) = k) ?ps = [q]"
    using dk k(3) q(1,2) by (rule unique_by_key)
  ultimately have "q = p" by simp
  have "filter (\<lambda>q. key (p_dedup q) = k) (people s) = [ensure_performance now p]"
    using fp by (simp add: sp filter_map comp_def)
  moreover have "distinct (group_ids (ensure_performance now p))"
    using dm p(1) by simp
  moreover have "memberships_unique s"
    using dm by (simp add: memberships_unique_def sp)
  ultimately show ?thesis
    using len gi gj p(3) q(3) \<open>q = p\<close> gs(3) ij by auto
qed


theorem C9_migration_merges_witness:
  "member_key demo_builtins demo_member1 = u ''phone:13812345678'' \<and>
   member_key demo_builtins demo_member2 = u ''phone:13812345678'' \<and>
   length (groups demo_migrated) = 2 \<and>
   (\<exists>p. filter (\<lambda>q. key (p_dedup q) = u ''phone:13812345678'') (people demo_migrated) = [p] \<and>
        u ''T1'' \<in> set (group_ids p) \<and> u ''T2'' \<in> set (group_ids p) \<and>
        distinct (group_ids p))"
proof -
  have shape: "[demo_team1, demo_team2] = demo_team1 # [demo_team2]"
    "l_members demo_team1 \<noteq> None"
    by (simp_all add: demo_team1_def)
  have ij: "0 < length [demo_team1, demo_team2]" "1 < length [demo_team1, demo_team2]"
    by simp_all
  have m1: "demo_member1 \<in> set (get_or (l_members ([demo_team1, demo_team2] ! 0)) [])"
    and m2: "demo_member2 \<in> set (get_or (l_members ([demo_team1, demo_team2] ! 1)) [])"
    by (simp_all add: demo_team1_def demo_team2_def get_or_def)
  have k: "member_key demo_builtins demo_member1 = u ''phone:13812345678''"
    "member_key demo_builtins demo_member2 = u ''phone:13812345678''"
    "u ''phone:13812345678'' \<noteq> []"
    by (simp_all add: member_key_def demo_member1_def demo_member2_def get_or_def demo_keys)
  have s: "load_org_store demo_builtins (u ''t9'') (\<lambda>n. u ''ffffffff-0000'')
             (LegacyList [demo_team1, demo_team2]) = demo_migrated"
    by (simp add: demo_migrated_def)
  have ids: "l_id ([demo_team1, demo_team2] ! 0) = Some (u ''T1'')"
    "l_id ([demo_team1, demo_team2] ! 1) = Some (u ''T2'')"
    by (simp_all add: demo_team1_def demo_team2_def)
  from C9_migration_merges [OF shape ij m1 m2 k s] ids k(1,2) show ?thesis
    by auto
qed

section \<open>Score fold\<close>

lemma bit_length_small: "bit_length 2 = 2" "bit_length 1 = 1" "bit_length (Suc 0) = 1"
  by (simp_all add: bit_length.simps [of 2] bit_length.simps [of 1] bit_length.simps [of 0]
      bit_length.simps [of "Suc 0"])

lemma big_sums:
  "add64 big big = PInf" "add64 PInf neg_big = PInf" "add64 big neg_big = Fin 0 0"
  "add64 (Fin 0 0) big = big" "add64 (Fin 0 0) (Fin 0 0) = Fin 0 0" "add64 (Fin 0 0) PInf = PInf"
  "add64 neg_big big = Fin 0 0" "add64 (Fin 0 0) neg_big = neg_big"
  "add64 big (Fin 0 0) = big" "add64 neg_big (Fin 0 0) = neg_big"
  "neg64 big = neg_big" "neg64 neg_big = big" "add64 big NInf = NInf" "add64 NInf big = NInf"
  "add64 NInf neg_big = NInf" "add64 PInf big = PInf"
  "abs_ge64 big big" "abs_ge64 big neg_big" "abs_ge64 PInf neg_big" "\<not> abs_ge64 (Fin 0 0) big"
  "\<not> abs_ge64 (Fin 0 0) neg_big"
  by (simp_all add: big_def neg_big_def round64_def Let_def bit_length_small)

lemma neumaier_step_unfold: "neumaier_step (f, c) x =
     (add64 f x, if abs_ge64 f x then add64 c (add64 (sub64 f (add64 f x)) x)
             else add64 c (add64 (sub64 x (add64 f x)) f))"
  by (simp add: Let_def)

lemma plain_sum_big: "plain_sum [big, big, neg_big, neg_big] = PInf"
    "plain_sum [big, neg_big, big, neg_big] = Fin 0 0"
  by (simp_all add: plain_sum_def zero_f64_def plus_f64_def big_sums)

lemma compensated_sum_big: "compensated_sum [big, big, neg_big, neg_big] = PInf"
    "compensated_sum [big, neg_big, big, neg_big] = Fin 0 0"
  by (simp_all add: compensated_sum_def neumaier_step_unfold sub64_def big_sums del: neumaier_step.simps)

text \<open>
  C5, as stated: the result of \<open>compute_current_score\<close> does not change when the events
  are permuted. On floats it does: \<open>ledger_a\<close> and \<open>ledger_b\<close> hold the same events,
  the first sums to infinity (the second addition overflows), the second to 0.0, under
  the plain summation of CPython up to 3.11 and under the compensated one from 3.12 on.
\<close>

theorem C5_float_order_counterexample:
  "mset (events ledger_b) = mset (events ledger_a) \<and>
   compute_current_score (builtin_sum Before_3_12) ledger_a = PInf \<and>
   compute_current_score (builtin_sum Before_3_12) ledger_b = Fin 0 0 \<and>
   compute_current_score (builtin_sum From_3_12) ledger_a = PInf \<and>
   compute_current_score (builtin_sum From_3_12) ledger_b = Fin 0 0"
  by (simp add: compute_current_score_def ledger_a_def
      ledger_b_def score_event_def plain_sum_big compensated_sum_big plus_f64_def big_sums)
lemma plain_sum_sum_list: "plain_sum xs = sum_list (xs :: ('f::comm_monoid_add) list)"
proof -
  have "foldl (+) a xs = a + sum_list xs" for a :: 'f
    by (induction xs arbitrary: a) (simp_all add: ac_simps)
  from this [of 0] show ?thesis by (simp add: plain_sum_def)
qed

text \<open>
  Where the addition of scores is exact, that is associative and commutative with 0
  neutral (integers, rationals), the left-to-right sum gives the base score plus the sum
  of the deltas, and the same for every permutation of the events.
\<close>

lemma score_fold_exact_arithmetic:
  fixes perf :: "('f::comm_monoid_add) performance"
  assumes "mset evs = mset (events perf)"
  shows "compute_current_score plain_sum perf =
           base_score perf + sum_list (map ev_delta (events perf)) \<and>
         compute_current_score plain_sum (perf\<lparr>events := evs\<rparr>) =
           compute_current_score plain_sum perf"
proof -
  have "sum_list (map ev_delta evs) = sum_list (map ev_delta (events perf))"
    using assms by (metis mset_map sum_mset_sum_list)
  then show ?thesis
    by (simp add: compute_current_score_def plain_sum_sum_list)
qed

lemma normalize_zero [simp]: "normalize64 0 e = (0, 0)"
  by (simp add: normalize64.simps)

lemma normalize_odd: "odd m \<Longrightarrow> normalize64 m e = (m, e)"
  by (auto simp add: normalize64.simps [of m e])

lemma normalize_double: "m \<noteq> 0 \<Longrightarrow> normalize64 (2 * m) e = normalize64 m (e + 1)"
  by (simp add: normalize64.simps [of "2 * m" e])

lemma normalize_shift: "m \<noteq> 0 \<Longrightarrow> normalize64 (m * 2 ^ k) e = normalize64 m (e + int k)"
proof (induction k arbitrary: e)
  case 0
  then show ?case by simp
next
  case (Suc k)
  have "normalize64 (m * 2 ^ Suc k) e = normalize64 (2 * (m * 2 ^ k)) e"
    by (simp add: mult.commute mult.left_commute)
  also have "\<dots> = normalize64 (m * 2 ^ k) (e + 1)"
    using Suc.prems by (intro normalize_double) simp
  also have "\<dots> = normalize64 m (e + 1 + int k)"
    using Suc.prems by (rule Suc.IH)
  finally show ?case by (simp add: add.commute add.left_commute)
qed

lemma normalize_spec:
  "m \<noteq> 0 \<Longrightarrow> normalize64 m e = (m', e') \<Longrightarrow> odd m' \<and> e \<le> e' \<and> m = m' * 2 ^ nat (e' - e)"
proof (induction m e rule: normalize64.induct)
  case (1 m e)
  show ?case
  proof (cases "even m")
    case True
    then obtain h where h: "m = 2 * h" by (elim evenE)
    with "1.prems" have hn: "h \<noteq> 0" by auto
    from "1.prems" True have n: "normalize64 (m div 2) (e + 1) = (m', e')"
      by (simp add: normalize64.simps [of m e])
    from "1.IH" [OF "1.prems"(1) True _ n] h hn
    have ih: "odd m'" "e + 1 \<le> e'" "h = m' * 2 ^ nat (e' - (e + 1))" by auto
    have "nat (e' - e) = Suc (nat (e' - (e + 1)))" using ih(2) by simp
    with ih h show ?thesis by simp
  next
    case False
    with "1.prems" show ?thesis by (simp add: normalize_odd)
  qed
qed

lemma normalize_neg: "normalize64 (- m) e = (case normalize64 m e of (m', e') \<Rightarrow> (- m', e'))"
proof (induction m e rule: normalize64.induct)
  case (1 m e)
  show ?case
  proof (cases "m = 0")
    case True
    then show ?thesis by simp
  next
    case False
    show ?thesis
    proof (cases "even m")
      case True
      then obtain h where h: "m = 2 * h" by (elim evenE)
      have "normalize64 (- m) e = normalize64 (- (m div 2)) (e + 1)"
        using False h normalize_double [of "- h" e] by simp
      also have "\<dots> = (case normalize64 (m div 2) (e + 1) of (m', e') \<Rightarrow> (- m', e'))"
        using "1.IH" [OF False True] .
      also have "normalize64 (m div 2) (e + 1) = normalize64 m e"
        using False True by (simp add: normalize64.simps [of m e])
      finally show ?thesis .
    next
      case False
      then show ?thesis by (simp add: normalize_odd)
    qed
  qed
qed

lemma of_units_units: "in_units k x \<Longrightarrow> of_units k (units k x) = x"
proof (cases x)
  case (Fin m e)
  assume "in_units k x"
  with Fin have e: "- int k \<le> e" and m: "odd m \<or> (m = 0 \<and> e = 0)" by auto
  show ?thesis
  proof (cases "m = 0")
    case True
    with m Fin show ?thesis by (simp add: of_units_def)
  next
    case False
    with m have "odd m" by auto
    with False e Fin show ?thesis
      by (simp add: of_units_def normalize_shift normalize_odd)
  qed
qed simp_all

lemma bit_length_zero [simp]: "bit_length 0 = 0"
  by (simp add: bit_length.simps)

lemma bit_length_bound: "n < 2 ^ k \<Longrightarrow> bit_length n \<le> k"
proof (induction k arbitrary: n)
  case 0
  then show ?case by simp
next
  case (Suc k)
  then have "n div 2 < 2 ^ k" by simp
  then have "bit_length (n div 2) \<le> k" by (rule Suc.IH)
  then show ?case by (simp add: bit_length.simps [of n])
qed

lemma normalize_mantissa_zero: "normalize64 i e = (0, x) \<Longrightarrow> x = 0"
  using normalize_spec [of i e 0 x] by (cases "i = 0") auto

lemma of_units_zero [simp]: "of_units k 0 = Fin 0 0"
  by (simp add: of_units_def)

lemma add64_zero [simp]:
  "add64 (Fin 0 0) (of_units k j) = of_units k j" "add64 (of_units k i) (Fin 0 0) = of_units k i"
  by (auto simp add: of_units_def split: prod.splits dest: normalize_mantissa_zero)

lemma neg64_of_units [simp]: "neg64 (of_units k i) = of_units k (- i)"
  by (simp add: of_units_def normalize_neg split: prod.splits)

lemma of_units_add:
  assumes "\<bar>i + j\<bar> < 2 ^ 53" and k: "k \<le> 1074"
  shows "add64 (of_units k i) (of_units k j) = of_units k (i + j)"
proof (cases "i = 0 \<or> j = 0")
  case True
  then show ?thesis by auto
next
  case False
  then have i: "i \<noteq> 0" and j: "j \<noteq> 0" by auto
  obtain a p where np: "normalize64 i (- int k) = (a, p)" by (cases "normalize64 i (- int k)")
  obtain b q where nq: "normalize64 j (- int k) = (b, q)" by (cases "normalize64 j (- int k)")
  from normalize_spec [OF i np] have a: "odd a" "- int k \<le> p" "i = a * 2 ^ nat (p + int k)"
    by auto
  from normalize_spec [OF j nq] have b: "odd b" "- int k \<le> q" "j = b * 2 ^ nat (q + int k)"
    by auto
  define e where "e = min p q"
  define m where "m = a * 2 ^ nat (p - e) + b * 2 ^ nat (q - e)"
  have e: "- int k \<le> e" "e \<le> p" "e \<le> q" using a(2) b(2) by (simp_all add: e_def)
  have pe: "nat (p + int k) = nat (p - e) + nat (e + int k)"
    and qe: "nat (q + int k) = nat (q - e) + nat (e + int k)"
    using e by simp_all
  have sum: "i + j = m * 2 ^ nat (e + int k)"
    unfolding m_def a(3) b(3) by (subst pe, subst qe) (simp add: power_add algebra_simps)
  have ab: "a \<noteq> 0" "b \<noteq> 0" using a(1) b(1) by auto
  have add: "add64 (of_units k i) (of_units k j) = round64 m e"
    using ab by (simp add: of_units_def np nq Let_def e_def m_def)
  show ?thesis
  proof (cases "m = 0")
    case True
    with sum add show ?thesis by (simp add: round64_def)
  next
    case False
    have "\<bar>m\<bar> \<le> \<bar>m\<bar> * 2 ^ nat (e + int k)" by (simp add: mult_le_cancel_left1)
    also have "\<dots> = \<bar>i + j\<bar>" by (simp add: sum abs_mult)
    finally have small: "\<bar>m\<bar> < 2 ^ 53" using assms by simp
    then have "nat \<bar>m\<bar> < 2 ^ 53"
      by (metis nat_less_numeral_power_cancel_iff abs_ge_zero nat_0_le)
    then have bl: "bit_length (nat \<bar>m\<bar>) \<le> 53" by (rule bit_length_bound)
    have "(2 :: int) ^ nat (e + int k) \<le> \<bar>m\<bar> * 2 ^ nat (e + int k)"
      using False by (simp add: mult_le_cancel_right1)
    also have "\<dots> < 2 ^ 53" using assms by (simp add: sum abs_mult)
    finally have lt: "(2 :: int) ^ nat (e + int k) < 2 ^ 53" .
    have "nat (e + int k) < 53" by (rule power_less_imp_less_exp [OF _ lt]) simp
    then have e53: "e < 53" by simp
    have lo: "- 1074 \<le> e" using e(1) k by simp
    have nz: "nat \<bar>m\<bar> \<noteq> 0" using False by simp
    have sg: "sgn m * int (nat \<bar>m\<bar>) = m" by (simp add: mult_sgn_abs)
    have le: "max (e + int (bit_length (nat \<bar>m\<bar>)) - 53) (- 1074) \<le> e"
      using bl lo by simp
    have ov: "\<not> 1024 < int (bit_length (nat \<bar>m\<bar>)) + e"
      using bl e53 by simp
    have "round64 m e = (case normalize64 m e of (m', e'') \<Rightarrow> Fin m' e'')"
      unfolding round64_def Let_def using False le ov nz sg by (simp only: if_True if_False)
    also have "normalize64 m e = normalize64 (m * 2 ^ nat (e + int k)) (- int k)"
      using False e by (simp add: normalize_shift)
    finally show ?thesis
      using add sum by (simp add: of_units_def)
  qed
qed

lemma plain_sum_units:
  "k \<le> 1074 \<Longrightarrow> \<bar>a\<bar> + sum_list (map abs ds) < 2 ^ 53 \<Longrightarrow>
   foldl (+) (of_units k a) (map (of_units k) ds) = of_units k (a + sum_list ds)"
proof (induction ds arbitrary: a)
  case Nil
  then show ?case by simp
next
  case (Cons d ds)
  from Cons.prems have "\<bar>a + d\<bar> + sum_list (map abs ds) < 2 ^ 53"
    by (simp del: power_numeral) linarith?
  moreover from this have "\<bar>a + d\<bar> < 2 ^ 53"
    using sum_list_abs [of ds] by (simp del: power_numeral) linarith?
  ultimately show ?case
    using Cons.IH [of "a + d"] Cons.prems(1) by (simp add: plus_f64_def of_units_add add.assoc)
qed

lemma neumaier_units:
  "k \<le> 1074 \<Longrightarrow> \<bar>a\<bar> + sum_list (map abs ds) < 2 ^ 53 \<Longrightarrow>
   foldl neumaier_step (of_units k a, Fin 0 0) (map (of_units k) ds) =
     (of_units k (a + sum_list ds), Fin 0 0)"
proof (induction ds arbitrary: a)
  case Nil
  then show ?case by simp
next
  case (Cons d ds)
  from Cons.prems have n: "\<bar>a + d\<bar> + sum_list (map abs ds) < 2 ^ 53"
    by (simp del: power_numeral) linarith?
  from n have s: "\<bar>a + d\<bar> < 2 ^ 53"
    using sum_list_abs [of ds] by (simp del: power_numeral) linarith?
  from Cons.prems have ad: "\<bar>a\<bar> < 2 ^ 53" "\<bar>d\<bar> < 2 ^ 53"
    using sum_list_abs [of ds] by (simp_all del: power_numeral)
  have k: "k \<le> 1074" by fact
  have t: "add64 (of_units k a) (of_units k d) = of_units k (a + d)"
    using s k by (rule of_units_add)
  have c1: "add64 (sub64 (of_units k a) (of_units k (a + d))) (of_units k d) = Fin 0 0"
    using of_units_add [of a "- (a + d)" k] of_units_add [of "- d" d k] ad k
    by (simp add: sub64_def)
  have c2: "add64 (sub64 (of_units k d) (of_units k (a + d))) (of_units k a) = Fin 0 0"
    using of_units_add [of d "- (a + d)" k] of_units_add [of "- a" a k] ad k
    by (simp add: sub64_def)
  have "neumaier_step (of_units k a, Fin 0 0) (of_units k d) = (of_units k (a + d), Fin 0 0)"
    by (simp add: t c1 c2 Let_def)
  then show ?case
    using Cons.IH [OF k n] by (simp add: add.assoc)
qed

lemma builtin_sum_units:
  assumes k: "k \<le> 1074" and b: "sum_list (map abs ds) < 2 ^ 53"
  shows "builtin_sum V (map (of_units k) ds) = of_units k (sum_list ds)"
proof (cases V)
  case Before_3_12
  have "foldl (+) (of_units k 0) (map (of_units k) ds) = of_units k (0 + sum_list ds)"
    using k b by (intro plain_sum_units) simp_all
  then show ?thesis
    using Before_3_12 by (simp add: plain_sum_def zero_f64_def)
next
  case From_3_12
  show ?thesis
  proof (cases ds)
    case Nil
    with From_3_12 show ?thesis by (simp add: compensated_sum_def)
  next
    case (Cons d rest)
    have "foldl neumaier_step (of_units k d, Fin 0 0) (map (of_units k) rest) =
        (of_units k (d + sum_list rest), Fin 0 0)"
      using k b Cons by (intro neumaier_units) simp_all
    with From_3_12 Cons show ?thesis by (simp add: compensated_sum_def)
  qed
qed

lemma exact_score:
  fixes perf :: "f64 performance"
  assumes "k \<le> 1074"
    and "in_units k (base_score perf)"
    and "\<forall>e \<in> set (events perf). in_units k (ev_delta e)"
    and "\<bar>units k (base_score perf)\<bar> + (\<Sum>e\<leftarrow>events perf. \<bar>units k (ev_delta e)\<bar>) < 2 ^ 53"
  shows "compute_current_score (builtin_sum V) perf =
           of_units k (units k (base_score perf) + (\<Sum>e\<leftarrow>events perf. units k (ev_delta e)))"
proof -
  let ?ds = "map (\<lambda>e. units k (ev_delta e)) (events perf)"
  have d: "map ev_delta (events perf) = map (of_units k) ?ds"
    using assms(3) by (simp add: of_units_units)
  have m: "map abs ?ds = map (\<lambda>e. \<bar>units k (ev_delta e)\<bar>) (events perf)"
    by (simp add: comp_def)
  have b0: "sum_list (map abs ?ds) < 2 ^ 53"
    using assms(4) unfolding m by (simp del: power_numeral)
  have "builtin_sum V (map ev_delta (events perf)) = of_units k (sum_list ?ds)"
    unfolding d using assms(1) b0 by (rule builtin_sum_units)
  moreover have "\<bar>units k (base_score perf) + sum_list ?ds\<bar> < 2 ^ 53"
    using assms(4) sum_list_abs [of ?ds] unfolding m by (simp del: power_numeral)
  ultimately show ?thesis
    using of_units_add [of "units k (base_score perf)" "sum_list ?ds" k] assms(1,2)
    by (simp add: compute_current_score_def plus_f64_def of_units_units)
qed

lemma units_of_units: "in_units k (of_units k i) \<and> units k (of_units k i) = i"
proof (cases "i = 0")
  case True
  then show ?thesis by simp
next
  case False
  obtain m e where n: "normalize64 i (- int k) = (m, e)" by (cases "normalize64 i (- int k)")
  from normalize_spec [OF False n] have "odd m" "- int k \<le> e" "i = m * 2 ^ nat (e + int k)"
    by auto
  moreover have "of_units k i = Fin m e"
    by (simp add: of_units_def n)
  ultimately show ?thesis
    by simp
qed

text \<open>
  C5, amended: when, for some \<open>k\<close> up to 1074, the base score \<open>b\<close> and every delta are
  integer multiples of \<open>2 ^ -k\<close> and \<open>(|b| + |d1| + ... + |dn|) * 2 ^ k < 2 ^ 53\<close>
  (integer scores, or scores in steps of 0.5 or 0.25, of any ordinary size), no addition
  rounds or overflows: \<open>compute_current_score\<close> returns the float whose value is exactly
  \<open>b + (d1 + ... + dn)\<close> (counted in units of \<open>2 ^ -k\<close>, the sum of the units), and
  the same for every permutation of the events, under the plain summation and under the
  compensated one.
\<close>

theorem C5_score_fold:
  fixes perf :: "f64 performance"
  assumes "k \<le> 1074"
    and "in_units k (base_score perf)"
    and "\<forall>e \<in> set (events perf). in_units k (ev_delta e)"
    and "\<bar>units k (base_score perf)\<bar> + (\<Sum>e\<leftarrow>events perf. \<bar>units k (ev_delta e)\<bar>) < 2 ^ 53"
    and "mset evs = mset (events perf)"
  shows "compute_current_score (builtin_sum V) perf =
           of_units k (units k (base_score perf) + (\<Sum>e\<leftarrow>events perf. units k (ev_delta e))) \<and>
         in_units k (compute_current_score (builtin_sum V) perf) \<and>
         units k (compute_current_score (builtin_sum V) perf) =
           units k (base_score perf) + (\<Sum>e\<leftarrow>events perf. units k (ev_delta e)) \<and>
         compute_current_score (builtin_sum V) (perf\<lparr>events := evs\<rparr>) =
           compute_current_score (builtin_sum V) perf"
proof -
  have s: "set evs = set (events perf)"
    using assms(5) by (rule mset_eq_setD)
  have sums: "(\<Sum>e\<leftarrow>evs. f e) = (\<Sum>e\<leftarrow>events perf. f e)" for f :: "f64 event \<Rightarrow> int"
    using assms(5) by (metis mset_map sum_mset_sum_list)
  have "compute_current_score (builtin_sum V) (perf\<lparr>events := evs\<rparr>) =
      of_units k (units k (base_score perf) + (\<Sum>e\<leftarrow>evs. units k (ev_delta e)))"
    using assms(1,2,3,4) exact_score [of k "perf\<lparr>events := evs\<rparr>" V]
    by (simp add: s sums del: power_numeral)
  then show ?thesis
    using exact_score [OF assms(1,2,3,4)] by (simp add: sums units_of_units)
qed

theorem C5_score_fold_witness:
  "(1 :: nat) \<le> 1074 \<and> in_units 1 (base_score ledger_half) \<and>
   list_all (\<lambda>e. in_units 1 (ev_delta e)) (events ledger_half) \<and>
   mset (rev (events ledger_half)) = mset (events ledger_half) \<and>
   compute_current_score (builtin_sum Before_3_12) ledger_half = Fin 75 0 \<and>
   compute_current_score (builtin_sum Before_3_12)
     (ledger_half\<lparr>events := rev (events ledger_half)\<rparr>) = Fin 75 0 \<and>
   compute_current_score (builtin_sum From_3_12) ledger_half = Fin 75 0 \<and>
   compute_current_score (builtin_sum From_3_12)
     (ledger_half\<lparr>events := rev (events ledger_half)\<rparr>) = Fin 75 0"
proof -
  have k: "(1 :: nat) \<le> 1074" by simp
  have a: "in_units 1 (base_score ledger_half)"
    and b: "\<forall>e \<in> set (events ledger_half). in_units 1 (ev_delta e)"
    by (simp_all add: ledger_half_def score_event_def)
  have c: "\<bar>units 1 (base_score ledger_half)\<bar> +
      (\<Sum>e\<leftarrow>events ledger_half. \<bar>units 1 (ev_delta e)\<bar>) < 2 ^ 53"
    by (simp add: ledger_half_def score_event_def)
  have d: "mset (rev (events ledger_half)) = mset (events ledger_half)" by simp
  have v: "units 1 (base_score ledger_half) + (\<Sum>e\<leftarrow>events ledger_half. units 1 (ev_delta e)) = 150"
    by (simp add: ledger_half_def score_event_def)
  have "normalize64 150 (- 1) = normalize64 75 0"
    using normalize_double [of 75 "- 1"] by simp
  then have f: "of_units 1 150 = Fin 75 0"
    by (simp add: of_units_def normalize_odd)
  show ?thesis
    using C5_score_fold [OF k a b c d, of Before_3_12] C5_score_fold [OF k a b c d, of From_3_12]
      k a b d v f
    by (simp add: list_all_iff)
qed

end
